theory Spec2Isabelle
  imports Main
begin

section \<open>Python values used by \<open>pdfrenamer/main.py\<close>\<close>

text \<open>
  The development embeds the functions \<open>rename\<close> and \<open>rename_file\<close> of
  \<open>pdfrenamer/main.py\<close>. Paths and file names are Python strings; exceptions are
  values carrying their message; the logger is a list of records that grows at the end.
\<close>

type_synonym path = string

datatype exn =
    ValueError string
  | UnboundLocalError string
  | TypeError string
  | OSError string
  | Exception string

text \<open>\<open>str(e)\<close> of an exception is its message.\<close>

fun exn_str :: "exn \<Rightarrow> string" where
  "exn_str (ValueError m) = m"
| "exn_str (UnboundLocalError m) = m"
| "exn_str (TypeError m) = m"
| "exn_str (OSError m) = m"
| "exn_str (Exception m) = m"

datatype level = INFO | ERROR

subsection \<open>Strings\<close>

text \<open>\<open>str(n)\<close> for a non-negative integer: its decimal digits.\<close>

definition digit_char :: "nat \<Rightarrow> char" where
  "digit_char d = char_of (48 + d)"

fun str_nat :: "nat \<Rightarrow> string" where
  "str_nat n = (if n < 10 then [digit_char n] else str_nat (n div 10) @ [digit_char (n mod 10)])"

declare str_nat.simps [simp del]

text \<open>Reading a decimal numeral back; used to show that \<open>str_nat\<close> is injective.\<close>

definition digit_val :: "char \<Rightarrow> nat" where
  "digit_val c = of_char c - 48"

definition nat_of_str :: "string \<Rightarrow> nat" where
  "nat_of_str cs = foldl (\<lambda>a c. 10 * a + digit_val c) 0 cs"

text \<open>
  \<open>s.lower()\<close> on the ASCII letters; every other character is left as it is.
\<close>

definition lower_char :: "char \<Rightarrow> char" where
  "lower_char c =
     (let n = (of_char c :: nat) in if 65 \<le> n \<and> n \<le> 90 then char_of (n + 32) else c)"

definition lower :: "string \<Rightarrow> string" where
  "lower s = map lower_char s"

text \<open>\<open>s.endswith(suf)\<close>.\<close>

definition endswith :: "string \<Rightarrow> string \<Rightarrow> bool" where
  "endswith s suf = (length suf \<le> length s \<and> drop (length s - length suf) s = suf)"

section \<open>The world the program runs in\<close>

text \<open>
  The state threaded through every call: the filesystem, the records the logger has
  received, and the renames the operating system has carried out so far (old path and
  new path, in order).
\<close>

record 'fs state =
  fs :: 'fs
  logs :: "(level \<times> string) list"
  renames :: "(path \<times> path) list"

definition logger_info :: "string \<Rightarrow> 'fs state \<Rightarrow> 'fs state" where
  "logger_info m s = s\<lparr>logs := logs s @ [(INFO, m)]\<rparr>"

definition logger_error :: "string \<Rightarrow> 'fs state \<Rightarrow> 'fs state" where
  "logger_error m s = s\<lparr>logs := logs s @ [(ERROR, m)]\<rparr>"

text \<open>
  What \<open>pdf2bib.pdf2bib_singlefile\<close> returns: the dictionary described in the
  docstring of \<open>rename\<close>. \<open>None\<close> is Python's \<open>None\<close>; the values of the
  bibtex dictionary are kept in their string form.
\<close>

record resolved =
  identifier' :: "string option"
  identifier_type :: "string option"
  validation_info :: "string option"
  path :: "string option"
  method' :: "string option"
  metadata :: "(string \<times> string) list option"
  bibtex :: "string option"

text \<open>
  The library functions and collaborators that \<open>main.py\<close> calls but does not define:
  the \<open>os\<close> and \<open>pathlib\<close> primitives over a filesystem of type \<open>'fs\<close>, the
  resolver \<open>pdf2bib_singlefile\<close>, \<open>build_filename\<close> and \<open>check_format_is_valid\<close>
  of \<open>pdfrenamer.filename_creators\<close>, and the two settings read with \<open>config.get\<close>.
  \<open>os_scandir\<close> gives, for each entry, its \<open>path\<close> and its \<open>is_dir()\<close>.
  A collaborator that can raise returns a sum.
\<close>

record 'fs world =
  os_path_exists :: "'fs \<Rightarrow> path \<Rightarrow> bool"
  os_path_isdir :: "'fs \<Rightarrow> path \<Rightarrow> bool"
  os_listdir :: "'fs \<Rightarrow> path \<Rightarrow> string list"
  os_scandir :: "'fs \<Rightarrow> path \<Rightarrow> (path \<times> bool) list"
  os_rename :: "'fs \<Rightarrow> path \<Rightarrow> path \<Rightarrow> exn + 'fs"
  os_path_sep :: string
  os_path_splitext :: "path \<Rightarrow> string \<times> string"
  pathlib_parent :: "path \<Rightarrow> string"
  pdf2bib_singlefile :: "'fs \<Rightarrow> path \<Rightarrow> exn + resolved"
  build_filename :: "(string \<times> string) list \<Rightarrow> string \<Rightarrow> string list \<Rightarrow> exn + string"
  check_format_is_valid :: "string \<Rightarrow> string list option"
  config_format :: string
  config_check_subfolders :: bool

section \<open>\<open>rename_file\<close>\<close>

text \<open>
  The name probed in round \<open>i\<close> of the loop:
  \<^verbatim>\<open>New_path = new_path + (f" ({i})" if i>1 else "") + ext\<close>
\<close>

definition candidate :: "path \<Rightarrow> nat \<Rightarrow> string \<Rightarrow> path" where
  "candidate new_path i ext =
     new_path @ (if i > 1 then '' ('' @ str_nat i @ '')'' else []) @ ext"

text \<open>
  The \<open>while True\<close> loop. It has no bound, so it is a partial function: \<open>None\<close> means
  that the loop never leaves. \<open>os.rename\<close> may raise; the exception leaves the loop and
  the filesystem is as it was.
\<close>

partial_function (option) rename_file_loop ::
  "'fs world \<Rightarrow> path \<Rightarrow> path \<Rightarrow> string \<Rightarrow> nat \<Rightarrow> 'fs state \<Rightarrow> ((exn + path) \<times> 'fs state) option"
where
  "rename_file_loop w old_path new_path ext i s =
     (if os_path_exists w (fs s) (candidate new_path i ext)
      then rename_file_loop w old_path new_path ext (i + 1) s
      else (case os_rename w (fs s) old_path (candidate new_path i ext) of
              Inl e \<Rightarrow> Some (Inl e, s)
            | Inr fs' \<Rightarrow>
                Some (Inr (candidate new_path i ext),
                      s\<lparr>fs := fs', renames := renames s @ [(old_path, candidate new_path i ext)]\<rparr>)))"

declare rename_file_loop.simps [code]

definition rename_file ::
  "'fs world \<Rightarrow> path \<Rightarrow> path \<Rightarrow> string \<Rightarrow> 'fs state \<Rightarrow> ((exn + path) \<times> 'fs state) option"
where
  "rename_file w old_path new_path ext s =
     (if \<not> os_path_exists w (fs s) old_path
      then Some (Inl (ValueError (''The file '' @ old_path @ '' does not exist'')), s)
      else rename_file_loop w old_path new_path ext 1 s)"

text \<open>
  Two abbreviations for statements about the loop: what the loop does once it has
  found a free name, and what it means for index \<open>k\<close> to be the first one, from
  \<open>i\<close> on, whose name does not exist.
\<close>

definition loop_result ::
  "'fs world \<Rightarrow> path \<Rightarrow> path \<Rightarrow> 'fs state \<Rightarrow> (exn + path) \<times> 'fs state" where
  "loop_result w old_path New_path s =
     (case os_rename w (fs s) old_path New_path of
        Inl e \<Rightarrow> (Inl e, s)
      | Inr fs' \<Rightarrow> (Inr New_path, s\<lparr>fs := fs', renames := renames s @ [(old_path, New_path)]\<rparr>))"

definition first_free :: "'fs world \<Rightarrow> 'fs state \<Rightarrow> path \<Rightarrow> string \<Rightarrow> nat \<Rightarrow> nat \<Rightarrow> bool" where
  "first_free w s new_path ext i k \<longleftrightarrow>
     i \<le> k \<and> (\<forall>j. i \<le> j \<and> j < k \<longrightarrow> os_path_exists w (fs s) (candidate new_path j ext))
     \<and> \<not> os_path_exists w (fs s) (candidate new_path k ext)"

section \<open>Results\<close>

text \<open>
  The dictionary that \<open>rename\<close> returns for one file: the resolver's dictionary with
  the two keys \<open>rename\<close> adds, \<open>path_original\<close> and \<open>path_new\<close>.
\<close>

record result = resolved +
  path_original :: string
  path_new :: "string option"

definition mk_result :: "resolved \<Rightarrow> string \<Rightarrow> string option \<Rightarrow> result" where
  "mk_result r orig new = resolved.extend r (result.fields orig new)"

text \<open>
  What a call of \<open>rename\<close> can return: \<open>None\<close>, one dictionary, or a list. \<open>PStr\<close>
  is there for the keys of a dictionary, which is what \<open>list.extend\<close> appends when it
  is handed a dictionary.
\<close>

datatype pyval = PNone | PDict result | PList "pyval list" | PStr string

fun is_dict :: "pyval \<Rightarrow> bool" where
  "is_dict (PDict r) = True"
| "is_dict v = False"

fun is_list :: "pyval \<Rightarrow> bool" where
  "is_list (PList xs) = True"
| "is_list v = False"

text \<open>Truth values of the Python objects the code tests with \<open>if\<close> and \<open>not\<close>.\<close>

fun truthy_str :: "string option \<Rightarrow> bool" where
  "truthy_str None = False"
| "truthy_str (Some s) = (s \<noteq> [])"

fun truthy_seq :: "'a list option \<Rightarrow> bool" where
  "truthy_seq None = False"
| "truthy_seq (Some xs) = (xs \<noteq> [])"

text \<open>\<open>f"{x}"\<close> of a value that is a string or \<open>None\<close>.\<close>

fun str_opt :: "string option \<Rightarrow> string" where
  "str_opt None = ''None''"
| "str_opt (Some s) = s"

text \<open>\<open>sep.join(xs)\<close>.\<close>

fun join :: "string \<Rightarrow> string list \<Rightarrow> string" where
  "join sep [] = []"
| "join sep [x] = x"
| "join sep (x # y # ys) = x @ sep @ join sep (y # ys)"

text \<open>
  \<^verbatim>\<open>"\n\t"+"\n\t".join([f"{key} = \"{metadata[key]}\"" for key in metadata.keys()])\<close>
\<close>

definition metadata_string :: "(string \<times> string) list \<Rightarrow> string" where
  "metadata_string m =
     [CHR 0x0A, CHR 0x09] @
     join [CHR 0x0A, CHR 0x09] (map (\<lambda>(key, v). key @ '' = '' @ [CHR 0x22] @ v @ [CHR 0x22]) m)"

text \<open>
  Iterating over a value, as \<open>list.extend\<close> does: a list gives its elements, a
  dictionary its keys in insertion order, a string its characters, and \<open>None\<close> raises
  \<open>TypeError\<close>.
\<close>

definition result_keys :: "string list" where
  "result_keys = [''identifier'', ''identifier_type'', ''validation_info'', ''path'', ''method'',
     ''metadata'', ''bibtex'', ''path_original'', ''path_new'']"

fun py_iter :: "pyval \<Rightarrow> exn + pyval list" where
  "py_iter PNone = Inl (TypeError ''NoneType object is not iterable'')"
| "py_iter (PDict r) = Inr (map PStr result_keys)"
| "py_iter (PList xs) = Inr xs"
| "py_iter (PStr s) = Inr (map (\<lambda>c. PStr [c]) s)"

section \<open>\<open>rename\<close>: one file\<close>

text \<open>
  The \<open>else\<close> branch of \<open>rename\<close> (the target is not a directory), with \<open>format\<close>
  and \<open>tags\<close> as the head of the function has left them. The two \<open>print\<close> calls of
  the outer handler write to standard output and are not part of the state.

  When \<open>pdf2bib_singlefile\<close> raises, the local variable \<open>result\<close> has no value yet, so
  the handler's \<open>result['path_new'] = None\<close> raises \<open>UnboundLocalError\<close> after the
  error has been logged. When \<open>build_filename\<close> raises, \<open>result\<close> is bound and the
  handler stores \<open>None\<close>.
\<close>

definition unexpected_error :: "exn \<Rightarrow> string" where
  "unexpected_error e =
     ''Some unexpected error occured while using pdf2bib to process this file: '' @
     [CHR 0x0A] @ '' '' @ exn_str e"

definition rename_single ::
  "'fs world \<Rightarrow> path \<Rightarrow> string \<Rightarrow> string list \<Rightarrow> 'fs state \<Rightarrow> ((exn + pyval) \<times> 'fs state) option"
where
  "rename_single w filename format tags s0 =
    (let s1 = logger_info (''File: '' @ filename) s0 in
     if \<not> os_path_exists w (fs s1) filename then
       Some (Inr PNone,
             logger_error ([CHR 0x27] @ filename @ [CHR 0x27] @ '' is not a valid file or directory.'') s1)
     else if \<not> endswith (lower filename) ''.pdf'' then
       Some (Inr PNone, logger_error ''The file must have .pdf extension.'' s1)
     else
       let s2 = logger_info ''Calling the pdf2bib library to retrieve the bibtex info of this file.'' s1 in
       case pdf2bib_singlefile w (fs s2) filename of
         Inl e \<Rightarrow> Some (Inl (UnboundLocalError ''result''), logger_error (unexpected_error e) s2)
       | Inr r \<Rightarrow>
           if truthy_seq (metadata r) \<and> truthy_str (identifier' r) then
             let s3 = logger_info (''Found bibtex data and an identifier for this file: '' @
                        str_opt (identifier' r) @ '' ('' @ str_opt (identifier_type r) @ '').'') s2;
                 metadata = the (metadata r);
                 s4 = logger_info (''Found the following data:'' @ metadata_string metadata) s3
             in
             case build_filename w metadata format tags of
               Inl e \<Rightarrow>
                 Some (Inr (PDict (mk_result r filename None)), logger_error (unexpected_error e) s4)
             | Inr NewName \<Rightarrow>
                 let ext = lower (snd (os_path_splitext w filename));
                     directory = pathlib_parent w filename;
                     NewPath = directory @ os_path_sep w @ NewName;
                     NewPathWithExt = NewPath @ ext;
                     s5 = logger_info (''The new file name is '' @ NewPathWithExt) s4
                 in
                 if filename = NewPathWithExt then
                   Some (Inr (PDict (mk_result r filename (Some NewPathWithExt))),
                         logger_info ''The new file name is identical to the old one. Nothing will be changed'' s5)
                 else
                   (case rename_file w filename NewPath ext s5 of
                      None \<Rightarrow> None
                    | Some (Inl e, s6) \<Rightarrow>
                        Some (Inr (PDict (mk_result r filename None)),
                              logger_error (''Some error occured while trying to rename this file: '' @
                                            [CHR 0x0A] @ '' '' @ exn_str e) s6)
                    | Some (Inr NewPathWithExt_renamed, s6) \<Rightarrow>
                        let s7 = logger_info ''File renamed correctly.'' s6;
                            s8 = (if NewPathWithExt \<noteq> NewPathWithExt_renamed
                                  then logger_info ''(Note: Another file with the same name was already present in the same folder, so a numerical index was added at the end).'' s7
                                  else s7)
                        in Some (Inr (PDict (mk_result r filename (Some NewPathWithExt_renamed))), s8))
           else
             Some (Inr (PDict (mk_result r filename None)),
                   logger_info ''The pdf2doi library was not able to find an identifier for this pdf file.'' s2))"

section \<open>\<open>rename\<close>: a directory\<close>

text \<open>
  The loop over \<open>pdf_files\<close>: each file is handed to \<open>rename\<close> again (\<open>call\<close>) and
  the value it returns is appended. An exception leaves the loop.
\<close>

fun files_loop ::
  "(path \<Rightarrow> 'fs state \<Rightarrow> ((exn + pyval) \<times> 'fs state) option) \<Rightarrow> path \<Rightarrow> string list \<Rightarrow>
   pyval list \<Rightarrow> 'fs state \<Rightarrow> ((exn + pyval list) \<times> 'fs state) option"
where
  "files_loop call target [] files_processed s = Some (Inr files_processed, s)"
| "files_loop call target (f # rest) files_processed s =
     (case call (target @ f) (logger_info ''................'' s) of
        None \<Rightarrow> None
      | Some (Inl e, s') \<Rightarrow> Some (Inl e, s')
      | Some (Inr result, s') \<Rightarrow> files_loop call target rest (files_processed @ [result]) s')"

text \<open>
  The loop over \<open>subfolders\<close>. \<open>files_processed\<close> is \<open>None\<close> while the local
  variable has no value: it is assigned only where the folder has a pdf file. The
  recursive call comes first; then \<open>files_processed.extend(result)\<close> reads the variable
  and iterates over \<open>result\<close>.
\<close>

fun subfolders_loop ::
  "(path \<Rightarrow> 'fs state \<Rightarrow> ((exn + pyval) \<times> 'fs state) option) \<Rightarrow> path list \<Rightarrow>
   pyval list option \<Rightarrow> 'fs state \<Rightarrow> ((exn + pyval list option) \<times> 'fs state) option"
where
  "subfolders_loop call [] files_processed s = Some (Inr files_processed, s)"
| "subfolders_loop call (subfolder # rest) files_processed s =
     (case call subfolder s of
        None \<Rightarrow> None
      | Some (Inl e, s') \<Rightarrow> Some (Inl e, s')
      | Some (Inr result, s') \<Rightarrow>
          (case files_processed of
             None \<Rightarrow> Some (Inl (UnboundLocalError ''files_processed''), s')
           | Some acc \<Rightarrow>
               (case py_iter result of
                  Inl e \<Rightarrow> Some (Inl e, s')
                | Inr items \<Rightarrow> subfolders_loop call rest (Some (acc @ items)) s')))"

text \<open>
  The part of the directory branch that handles the pdf files, from
  \<open>numb_files = len(pdf_files)\<close> to the end of its \<open>if\<close>. It gives the value of
  the local variable \<open>files_processed\<close> afterwards.
\<close>

definition walk_files ::
  "(path \<Rightarrow> 'fs state \<Rightarrow> ((exn + pyval) \<times> 'fs state) option) \<Rightarrow> path \<Rightarrow> string list \<Rightarrow>
   'fs state \<Rightarrow> ((exn + pyval list option) \<times> 'fs state) option"
where
  "walk_files call target pdf_files s =
     (let numb_files = length pdf_files in
      if numb_files = 0 then
        Some (Inr None, logger_error ''No pdf file found in this folder.'' s)
      else
        (case files_loop call target pdf_files []
                (logger_info (''Found '' @ str_nat numb_files @ '' pdf file(s).'') s) of
           None \<Rightarrow> None
         | Some (Inl e, s') \<Rightarrow> Some (Inl e, s')
         | Some (Inr fp, s') \<Rightarrow> Some (Inr (Some fp), logger_info ''................'' s')))"

text \<open>
  The part that handles the subfolders, from \<open>numb_subfolders = len(subfolders)\<close>
  to the last \<open>logger.info\<close> before the \<open>return\<close>.
\<close>

definition walk_subfolders ::
  "(path \<Rightarrow> 'fs state \<Rightarrow> ((exn + pyval) \<times> 'fs state) option) \<Rightarrow> 'fs world \<Rightarrow> path list \<Rightarrow>
   pyval list option \<Rightarrow> 'fs state \<Rightarrow> ((exn + pyval list option) \<times> 'fs state) option"
where
  "walk_subfolders call w subfolders files_processed s =
     (let numb_subfolders = length subfolders in
      if numb_subfolders \<noteq> 0 then
        (let s1 = logger_info (''Found '' @ str_nat numb_subfolders @ '' subfolder(s)'') s in
         if config_check_subfolders w then
           (case subfolders_loop call subfolders files_processed
                   (logger_info ''Exploring subfolders...'' s1) of
              None \<Rightarrow> None
            | Some (Inl e, s') \<Rightarrow> Some (Inl e, s')
            | Some (Inr fp, s') \<Rightarrow> Some (Inr fp, logger_info ''................'' s'))
         else
           Some (Inr files_processed,
                 logger_info ''................''
                   (logger_info (''The subfolder(s) will not be scanned because the parameter check_subfolders is set to False.'' @
                      '' When using this script from command line, use the option -sf to explore also subfolders.'') s1)))
      else Some (Inr files_processed, s))"

text \<open>\<open>return files_processed\<close>: reading a local variable that has no value raises.\<close>

fun return_files_processed :: "pyval list option \<Rightarrow> exn + pyval" where
  "return_files_processed None = Inl (UnboundLocalError ''files_processed'')"
| "return_files_processed (Some fp) = Inr (PList fp)"

text \<open>
  The directory branch of \<open>rename\<close>, from \<open>if os.path.isdir(target)\<close> to
  \<open>return files_processed\<close>. Both listings are taken before any file is processed.
\<close>

definition rename_dir ::
  "(path \<Rightarrow> 'fs state \<Rightarrow> ((exn + pyval) \<times> 'fs state) option) \<Rightarrow> 'fs world \<Rightarrow> path \<Rightarrow>
   'fs state \<Rightarrow> ((exn + pyval) \<times> 'fs state) option"
where
  "rename_dir call w target0 s0 =
    (let s1 = logger_info (''Looking for pdf files and subfolders in the folder '' @ target0 @ ''...'') s0;
         target = (if \<not> endswith target0 (os_path_sep w) then target0 @ os_path_sep w else target0);
         pdf_files = filter (\<lambda>f. endswith (lower f) ''.pdf'') (os_listdir w (fs s1) target);
         subfolders = map fst (filter snd (os_scandir w (fs s1) target))
     in
     (case walk_files call target pdf_files s1 of
        None \<Rightarrow> None
      | Some (Inl e, s2) \<Rightarrow> Some (Inl e, s2)
      | Some (Inr files_processed, s2) \<Rightarrow>
          (case walk_subfolders call w subfolders files_processed s2 of
             None \<Rightarrow> None
           | Some (Inl e, s3) \<Rightarrow> Some (Inl e, s3)
           | Some (Inr fp, s3) \<Rightarrow> Some (return_files_processed fp, s3))))"

section \<open>\<open>rename\<close>\<close>

text \<open>
  The head of \<open>rename\<close>: \<^verbatim>\<open>if not format: format = config.get('format')\<close>, and the
  tags, which are computed from the format only where the caller gave none.
\<close>

definition effective_format :: "'fs world \<Rightarrow> string option \<Rightarrow> string" where
  "effective_format w format = (if \<not> truthy_str format then config_format w else the format)"

definition effective_tags :: "'fs world \<Rightarrow> string \<Rightarrow> string list option \<Rightarrow> string list option" where
  "effective_tags w format tags =
     (if \<not> truthy_seq tags then check_format_is_valid w format else tags)"

text \<open>
  The whole function. The first argument bounds the depth of the recursion (a folder
  calls \<open>rename\<close> for each of its pdf files and subfolders); \<open>None\<close> means that the
  bound was too small or that \<open>rename_file\<close> never left its loop.
\<close>

fun rename ::
  "nat \<Rightarrow> 'fs world \<Rightarrow> path \<Rightarrow> string option \<Rightarrow> string list option \<Rightarrow> 'fs state \<Rightarrow>
   ((exn + pyval) \<times> 'fs state) option"
where
  "rename 0 w target format tags s = None"
| "rename (Suc n) w target format tags s =
    (let format = effective_format w format in
     case effective_tags w format tags of
       None \<Rightarrow> Some (Inr PNone, s)
     | Some tags \<Rightarrow>
         if \<not> os_path_exists w (fs s) target then
           Some (Inr PNone, logger_error (target @ '' is not a valid path to a file or a directory.'') s)
         else if os_path_isdir w (fs s) target then
           rename_dir (\<lambda>p. rename n w p (Some format) (Some tags)) w target s
         else
           rename_single w target format tags s)"

section \<open>What the specification says about the order of a walk\<close>

text \<open>
  The specification describes the list a walk returns as the results of the files in
  listing order, followed by the results of the subfolders in listing order. \<open>in_order\<close>
  is that description: it runs \<open>call\<close> on each element of a list in turn, each in the
  state the previous one left, and collects what the calls return; an exception ends it.
\<close>

fun in_order ::
  "('a \<Rightarrow> 'fs state \<Rightarrow> ((exn + 'b) \<times> 'fs state) option) \<Rightarrow> 'a list \<Rightarrow> 'fs state \<Rightarrow>
   ((exn + 'b list) \<times> 'fs state) option"
where
  "in_order call [] s = Some (Inr [], s)"
| "in_order call (x # xs) s =
     (case call x s of
        None \<Rightarrow> None
      | Some (Inl e, s') \<Rightarrow> Some (Inl e, s')
      | Some (Inr v, s') \<Rightarrow>
          (case in_order call xs s' of
             None \<Rightarrow> None
           | Some (Inl e, s'') \<Rightarrow> Some (Inl e, s'')
           | Some (Inr vs, s'') \<Rightarrow> Some (Inr (v # vs), s'')))"

text \<open>One file of a folder, as the walk processes it, and one subfolder.\<close>

definition file_step ::
  "(path \<Rightarrow> 'fs state \<Rightarrow> ((exn + pyval) \<times> 'fs state) option) \<Rightarrow> path \<Rightarrow> string \<Rightarrow> 'fs state \<Rightarrow>
   ((exn + pyval) \<times> 'fs state) option"
where
  "file_step call target f s = call (target @ f) (logger_info ''................'' s)"

definition subfolder_step ::
  "(path \<Rightarrow> 'fs state \<Rightarrow> ((exn + pyval) \<times> 'fs state) option) \<Rightarrow> path \<Rightarrow> 'fs state \<Rightarrow>
   ((exn + pyval list) \<times> 'fs state) option"
where
  "subfolder_step call subfolder s =
     (case call subfolder s of
        None \<Rightarrow> None
      | Some (Inl e, s') \<Rightarrow> Some (Inl e, s')
      | Some (Inr result, s') \<Rightarrow>
          (case py_iter result of Inl e \<Rightarrow> Some (Inl e, s') | Inr items \<Rightarrow> Some (Inr items, s')))"

text \<open>
  Names for what the directory branch computes before its loops: the target with its
  separator, the pdf files and the subfolders (lines 74 to 79 of \<open>main.py\<close>), and the
  states in which the two loops start, with the records logged until then.
\<close>

definition dir_target :: "'fs world \<Rightarrow> path \<Rightarrow> path" where
  "dir_target w target =
     (if \<not> endswith target (os_path_sep w) then target @ os_path_sep w else target)"

definition pdf_files_of :: "'fs world \<Rightarrow> 'fs \<Rightarrow> path \<Rightarrow> string list" where
  "pdf_files_of w t target =
     filter (\<lambda>f. endswith (lower f) ''.pdf'') (os_listdir w t (dir_target w target))"

definition subfolders_of :: "'fs world \<Rightarrow> 'fs \<Rightarrow> path \<Rightarrow> path list" where
  "subfolders_of w t target = map fst (filter snd (os_scandir w t (dir_target w target)))"

definition files_start :: "path \<Rightarrow> nat \<Rightarrow> 'fs state \<Rightarrow> 'fs state" where
  "files_start target numb_files s =
     logger_info (''Found '' @ str_nat numb_files @ '' pdf file(s).'')
       (logger_info (''Looking for pdf files and subfolders in the folder '' @ target @ ''...'') s)"

definition subfolders_start :: "nat \<Rightarrow> 'fs state \<Rightarrow> 'fs state" where
  "subfolders_start numb_subfolders s =
     logger_info ''Exploring subfolders...''
       (logger_info (''Found '' @ str_nat numb_subfolders @ '' subfolder(s)'')
         (logger_info ''................'' s))"

text \<open>
  A list is flat when none of its elements is a list. No folder has a name that ends in
  \<open>.pdf\<close>, whatever the state of the filesystem: the condition under which a walk
  hands only files to the single-file branch.
\<close>

definition flat_list :: "pyval list \<Rightarrow> bool" where
  "flat_list xs = list_all (\<lambda>x. \<not> is_list x) xs"

definition no_pdf_named_folder :: "'fs world \<Rightarrow> bool" where
  "no_pdf_named_folder w = (\<forall>t p. os_path_isdir w t p \<longrightarrow> \<not> endswith (lower p) ''.pdf'')"

section \<open>A small filesystem for examples\<close>

text \<open>
  A concrete world on which the definitions can be run. The folders are fixed; the
  filesystem is the list of its regular files, in listing order, and a listing gives the
  folders before the files. Renaming replaces a path in the list. The resolver fails on
  \<open>bad.pdf\<close>, finds nothing for \<open>unknown.pdf\<close>, and finds the same paper for every
  other file; the builder names a file after its title.
\<close>

type_synonym toyfs = "path list"

definition strip_sep :: "path \<Rightarrow> path" where
  "strip_sep p = (if endswith p ''/'' then butlast p else p)"

definition toy_child :: "path \<Rightarrow> path \<Rightarrow> bool" where
  "toy_child d p =
     (take (length d) p = d \<and> length d < length p \<and> CHR ''/'' \<notin> set (drop (length d) p))"

definition toy_parent :: "path \<Rightarrow> string" where
  "toy_parent p =
     (let d = rev (drop 1 (dropWhile (\<lambda>c. c \<noteq> CHR ''/'') (rev p))) in if d = [] then ''.'' else d)"

definition toy_splitext :: "path \<Rightarrow> string \<times> string" where
  "toy_splitext p =
     (let e = rev (takeWhile (\<lambda>c. c \<noteq> CHR ''.'') (rev p))
      in (take (length p - length e - 1) p, drop (length p - length e - 1) p))"

definition smith2020 :: resolved where
  "smith2020 =
     \<lparr>identifier' = Some ''10.1000/182'', identifier_type = Some ''DOI'',
      validation_info = Some ''True'', path = Some ''paper.pdf'', method' = Some ''document_infos'',
      metadata = Some [(''title'', ''Smith2020''), (''year'', ''2020'')],
      bibtex = Some ''@article{smith2020}''\<rparr>"

definition nothing_found :: resolved where
  "nothing_found =
     \<lparr>identifier' = None, identifier_type = None, validation_info = None,
      path = Some ''paper.pdf'', method' = None, metadata = None, bibtex = None\<rparr>"

definition toy_pdf2bib :: "toyfs \<Rightarrow> path \<Rightarrow> exn + resolved" where
  "toy_pdf2bib t p =
     (if endswith p ''bad.pdf'' then Inl (Exception ''not a pdf'')
      else if endswith p ''unknown.pdf'' then Inr nothing_found
      else Inr smith2020)"

definition toy_build_filename :: "(string \<times> string) list \<Rightarrow> string \<Rightarrow> string list \<Rightarrow> exn + string" where
  "toy_build_filename m format tags =
     (case map_of m ''title'' of None \<Rightarrow> Inl (Exception ''no title'') | Some t \<Rightarrow> Inr t)"

definition toy_world :: "path list \<Rightarrow> toyfs world" where
  "toy_world dirs =
     \<lparr>os_path_exists = (\<lambda>t p. p \<in> set t \<or> strip_sep p \<in> set dirs),
      os_path_isdir = (\<lambda>t p. strip_sep p \<in> set dirs),
      os_listdir = (\<lambda>t d. map (drop (length d)) (filter (toy_child d) (dirs @ t))),
      os_scandir = (\<lambda>t d. map (\<lambda>p. (p, True)) (filter (toy_child d) dirs) @
                           map (\<lambda>p. (p, False)) (filter (toy_child d) t)),
      os_rename = (\<lambda>t old new. Inr (map (\<lambda>p. if p = old then new else p) t)),
      os_path_sep = ''/'',
      os_path_splitext = toy_splitext,
      pathlib_parent = toy_parent,
      pdf2bib_singlefile = toy_pdf2bib,
      build_filename = toy_build_filename,
      check_format_is_valid = (\<lambda>f. if f = ''{T}'' then Some [''{T}''] else None),
      config_format = ''{T}'',
      config_check_subfolders = False\<rparr>"

definition toy_state :: "toyfs \<Rightarrow> toyfs state" where
  "toy_state t = \<lparr>fs = t, logs = [], renames = []\<rparr>"

text \<open>A call returns a dictionary: it ends, raises nothing, and its value is a result record.\<close>

definition returns_result_record :: "((exn + pyval) \<times> 'fs state) option \<Rightarrow> bool" where
  "returns_result_record out = (case out of Some (Inr v, s') \<Rightarrow> is_dict v | _ \<Rightarrow> False)"

section \<open>Properties of \<open>rename_file\<close>\<close>

subsection \<open>Decimal numerals are read back\<close>

lemma digit_val_digit_char: "d < 10 \<Longrightarrow> digit_val (digit_char d) = d"
  by (simp add: digit_val_def digit_char_def)

lemma nat_of_str_snoc: "nat_of_str (cs @ [c]) = 10 * nat_of_str cs + digit_val c"
  by (simp add: nat_of_str_def)

lemma nat_of_str_str_nat: "nat_of_str (str_nat n) = n"
proof (induction n rule: str_nat.induct)
  case (1 n)
  show ?case
  proof (cases "n < 10")
    case True
    then show ?thesis
      by (subst str_nat.simps) (simp add: nat_of_str_def digit_val_digit_char)
  next
    case False
    then have "nat_of_str (str_nat (n div 10)) = n div 10"
      using "1.IH" by simp
    with False show ?thesis
      by (subst str_nat.simps) (simp add: nat_of_str_snoc digit_val_digit_char)
  qed
qed

lemma str_nat_inj: "str_nat a = str_nat b \<Longrightarrow> a = b"
  by (metis nat_of_str_str_nat)

lemma candidate_inj:
  assumes "candidate new_path i ext = candidate new_path j ext" and "1 < i" and "1 < j"
  shows "i = j"
  using assms by (simp add: candidate_def str_nat_inj)

subsection \<open>The loop finds the first free name\<close>

lemma free_candidate_exists:
  assumes "finite {p. ex p}"
  shows "\<exists>k. 1 \<le> k \<and> \<not> ex (candidate new_path k ext)"
proof (rule ccontr)
  assume "\<not> ?thesis"
  then have all: "\<And>k. 1 \<le> k \<Longrightarrow> ex (candidate new_path k ext)" by blast
  have "inj_on (\<lambda>k. candidate new_path k ext) {2..}"
    by (rule inj_onI) (auto dest: candidate_inj)
  moreover have "infinite {2::nat..}"
    by (simp add: infinite_Ici)
  ultimately have "infinite ((\<lambda>k. candidate new_path k ext) ` {2..})"
    by (simp add: finite_image_iff)
  moreover have "(\<lambda>k. candidate new_path k ext) ` {2..} \<subseteq> {p. ex p}"
    using all by auto
  ultimately show False
    using assms finite_subset by blast
qed

lemma first_free_candidate:
  assumes "finite {p. ex p}"
  shows "\<exists>k. 1 \<le> k \<and> \<not> ex (candidate new_path k ext) \<and>
             (\<forall>j. 1 \<le> j \<and> j < k \<longrightarrow> ex (candidate new_path j ext))"
proof -
  define P where "P k \<longleftrightarrow> 1 \<le> k \<and> \<not> ex (candidate new_path k ext)" for k
  from free_candidate_exists [OF assms] obtain k0 where "P k0"
    unfolding P_def by blast
  then have "P (LEAST k. P k)" by (rule LeastI)
  moreover have "\<And>j. j < (LEAST k. P k) \<Longrightarrow> \<not> P j"
    by (rule not_less_Least)
  ultimately show ?thesis
    unfolding P_def by blast
qed

lemma rename_file_loop_skip:
  assumes "\<forall>j. i \<le> j \<and> j < k \<longrightarrow> os_path_exists w (fs s) (candidate new_path j ext)"
    and "i \<le> k"
  shows "rename_file_loop w old_path new_path ext i s = rename_file_loop w old_path new_path ext k s"
  using assms
proof (induction "k - i" arbitrary: i)
  case 0
  then show ?case by simp
next
  case (Suc d)
  then have "i < k" by simp
  with Suc.prems have "os_path_exists w (fs s) (candidate new_path i ext)" by simp
  then have "rename_file_loop w old_path new_path ext i s =
             rename_file_loop w old_path new_path ext (i + 1) s"
    by (subst rename_file_loop.simps) simp
  also have "\<dots> = rename_file_loop w old_path new_path ext k s"
    using Suc.hyps(1) [of "i + 1"] Suc.hyps(2) Suc.prems \<open>i < k\<close> by simp
  finally show ?case .
qed

lemma rename_file_loop_free:
  assumes "\<not> os_path_exists w (fs s) (candidate new_path k ext)"
  shows "rename_file_loop w old_path new_path ext k s =
           (case os_rename w (fs s) old_path (candidate new_path k ext) of
              Inl e \<Rightarrow> Some (Inl e, s)
            | Inr fs' \<Rightarrow>
                Some (Inr (candidate new_path k ext),
                      s\<lparr>fs := fs', renames := renames s @ [(old_path, candidate new_path k ext)]\<rparr>))"
  using assms by (subst rename_file_loop.simps) simp

text \<open>
  C9: when \<open>old_path\<close> does not exist, \<open>rename_file\<close> raises
  \<open>ValueError\<close> (its not-found error) and leaves the state as it was: no rename
  is carried out.
\<close>

theorem rename_file_missing_source:
  assumes "\<not> os_path_exists w (fs s) old_path"
  shows "rename_file w old_path new_path ext s =
           Some (Inl (ValueError (''The file '' @ old_path @ '' does not exist'')), s)"
  using assms by (simp add: rename_file_def)

text \<open>
  C3: when \<open>old_path\<close> exists and finitely many paths exist, \<open>rename_file\<close> probes
  \<open>new_path + ext\<close>, \<open>new_path + " (2)" + ext\<close>, \<open>new_path + " (3)" + ext\<close>, \<dots> in
  this order and hands the first name that does not exist to \<open>os.rename\<close>. Where
  \<open>os.rename\<close> carries out that one rename, \<open>rename_file\<close> returns the name: every
  earlier name exists, so the name is \<open>new_path + ext\<close> exactly when that is free. The
  state afterwards is the one \<open>os.rename\<close> gave, with exactly one rename added to those
  carried out, from \<open>old_path\<close> to the returned name. The index is the least one whose
  name is free, so the result is fixed by the set of existing paths.
\<close>

theorem rename_file_first_free:
  assumes "os_path_exists w (fs s) old_path"
    and "finite {p. os_path_exists w (fs s) p}"
    and "os_rename w (fs s) old_path
           (candidate new_path
              (LEAST k. 1 \<le> k \<and> \<not> os_path_exists w (fs s) (candidate new_path k ext)) ext) = Inr fs'"
  shows "\<exists>k. 1 \<le> k
           \<and> (\<forall>j. 1 \<le> j \<and> j < k \<longrightarrow> os_path_exists w (fs s) (candidate new_path j ext))
           \<and> \<not> os_path_exists w (fs s) (candidate new_path k ext)
           \<and> candidate new_path k ext =
               (if k = 1 then new_path @ ext else new_path @ '' ('' @ str_nat k @ '')'' @ ext)
           \<and> k = (LEAST k. 1 \<le> k \<and> \<not> os_path_exists w (fs s) (candidate new_path k ext))
           \<and> rename_file w old_path new_path ext s =
               Some (Inr (candidate new_path k ext),
                     s\<lparr>fs := fs', renames := renames s @ [(old_path, candidate new_path k ext)]\<rparr>)"
proof -
  from first_free_candidate [OF assms(2), of new_path ext]
  obtain k where k: "1 \<le> k" "\<not> os_path_exists w (fs s) (candidate new_path k ext)"
    "\<forall>j. 1 \<le> j \<and> j < k \<longrightarrow> os_path_exists w (fs s) (candidate new_path j ext)"
    by blast
  have least: "k = (LEAST k. 1 \<le> k \<and> \<not> os_path_exists w (fs s) (candidate new_path k ext))"
  proof (rule Least_equality [symmetric])
    show "1 \<le> k \<and> \<not> os_path_exists w (fs s) (candidate new_path k ext)"
      using k by simp
  next
    fix j
    assume "1 \<le> j \<and> \<not> os_path_exists w (fs s) (candidate new_path j ext)"
    with k(3) show "k \<le> j"
      by (meson not_le_imp_less)
  qed
  from assms(3) have mv: "os_rename w (fs s) old_path (candidate new_path k ext) = Inr fs'"
    by (simp only: least [symmetric])
  have "rename_file w old_path new_path ext s = rename_file_loop w old_path new_path ext 1 s"
    using assms(1) by (simp add: rename_file_def)
  also have "\<dots> = rename_file_loop w old_path new_path ext k s"
    using k(1,3) by (intro rename_file_loop_skip) auto
  also have "\<dots> = Some (Inr (candidate new_path k ext),
                     s\<lparr>fs := fs', renames := renames s @ [(old_path, candidate new_path k ext)]\<rparr>)"
    using k(2) mv by (simp add: rename_file_loop_free)
  finally have run: "rename_file w old_path new_path ext s =
     Some (Inr (candidate new_path k ext),
           s\<lparr>fs := fs', renames := renames s @ [(old_path, candidate new_path k ext)]\<rparr>)" .
  have shape: "candidate new_path k ext =
      (if k = 1 then new_path @ ext else new_path @ '' ('' @ str_nat k @ '')'' @ ext)"
    using k(1) by (auto simp: candidate_def)
  from k run shape least show ?thesis by blast
qed

lemma toy_exists_finite: "finite {p. os_path_exists (toy_world dirs) t p}"
proof -
  have "{p. os_path_exists (toy_world dirs) t p}
          \<subseteq> set t \<union> set dirs \<union> (\<lambda>d. d @ ''/'') ` set dirs"
  proof
    fix p
    assume "p \<in> {p. os_path_exists (toy_world dirs) t p}"
    then have "p \<in> set t \<or> strip_sep p \<in> set dirs"
      by (simp add: toy_world_def)
    moreover have "strip_sep p = p \<or> p = strip_sep p @ ''/''"
      by (cases p rule: rev_cases) (auto simp: strip_sep_def endswith_def)
    ultimately show "p \<in> set t \<union> set dirs \<union> (\<lambda>d. d @ ''/'') ` set dirs"
      by force
  qed
  then show ?thesis
    by (rule finite_subset) simp
qed

theorem rename_file_missing_source_witness:
  "\<not> os_path_exists (toy_world [''d'']) (fs (toy_state [''d/a.pdf''])) ''d/b.pdf'' \<and>
   rename_file (toy_world [''d'']) ''d/b.pdf'' ''d/Smith2020'' ''.pdf'' (toy_state [''d/a.pdf'']) =
     Some (Inl (ValueError ''The file d/b.pdf does not exist''), toy_state [''d/a.pdf''])"
proof -
  have h: "\<not> os_path_exists (toy_world [''d'']) (fs (toy_state [''d/a.pdf''])) ''d/b.pdf''"
    by code_simp
  from rename_file_missing_source [OF h, of "''d/Smith2020''" "''.pdf''"] h
  show ?thesis by simp
qed

text \<open>
  An example for C3 in which \<open>os.rename\<close> refuses the empty name and no other:
  \<open>d/Smith2020.pdf\<close> exists, \<open>d/Smith2020 (2).pdf\<close> is the first free name.
\<close>

theorem rename_file_first_free_witness:
  "os_path_exists
     ((toy_world [''d''])\<lparr>os_rename := \<lambda>t old new.
         if new = [] then Inl (OSError ''No such file or directory'')
         else Inr (map (\<lambda>p. if p = old then new else p) t)\<rparr>)
     (fs (toy_state [''d/a.pdf'', ''d/Smith2020.pdf''])) ''d/a.pdf''
   \<and> finite {p. os_path_exists
     ((toy_world [''d''])\<lparr>os_rename := \<lambda>t old new.
         if new = [] then Inl (OSError ''No such file or directory'')
         else Inr (map (\<lambda>p. if p = old then new else p) t)\<rparr>)
     (fs (toy_state [''d/a.pdf'', ''d/Smith2020.pdf''])) p}
   \<and> (LEAST k. 1 \<le> k \<and> \<not> os_path_exists
     ((toy_world [''d''])\<lparr>os_rename := \<lambda>t old new.
         if new = [] then Inl (OSError ''No such file or directory'')
         else Inr (map (\<lambda>p. if p = old then new else p) t)\<rparr>)
     (fs (toy_state [''d/a.pdf'', ''d/Smith2020.pdf''])) (candidate ''d/Smith2020'' k ''.pdf'')) = 2
   \<and> os_rename
     ((toy_world [''d''])\<lparr>os_rename := \<lambda>t old new.
         if new = [] then Inl (OSError ''No such file or directory'')
         else Inr (map (\<lambda>p. if p = old then new else p) t)\<rparr>)
     (fs (toy_state [''d/a.pdf'', ''d/Smith2020.pdf''])) ''d/a.pdf'' (candidate ''d/Smith2020'' 2 ''.pdf'')
       = Inr [''d/Smith2020 (2).pdf'', ''d/Smith2020.pdf'']
   \<and> rename_file
     ((toy_world [''d''])\<lparr>os_rename := \<lambda>t old new.
         if new = [] then Inl (OSError ''No such file or directory'')
         else Inr (map (\<lambda>p. if p = old then new else p) t)\<rparr>)
     ''d/a.pdf'' ''d/Smith2020'' ''.pdf'' (toy_state [''d/a.pdf'', ''d/Smith2020.pdf'']) =
     Some (Inr ''d/Smith2020 (2).pdf'',
           \<lparr>fs = [''d/Smith2020 (2).pdf'', ''d/Smith2020.pdf''], logs = [],
            renames = [(''d/a.pdf'', ''d/Smith2020 (2).pdf'')]\<rparr>)"
proof -
  let ?w = "(toy_world [''d''])\<lparr>os_rename := \<lambda>t old new.
         if new = [] then Inl (OSError ''No such file or directory'')
         else Inr (map (\<lambda>p. if p = old then new else p) t)\<rparr>"
  let ?s = "toy_state [''d/a.pdf'', ''d/Smith2020.pdf'']"
  let ?free = "\<lambda>k. 1 \<le> k \<and> \<not> os_path_exists ?w (fs ?s) (candidate ''d/Smith2020'' k ''.pdf'')"
  have h1: "os_path_exists ?w (fs ?s) ''d/a.pdf''"
    by code_simp
  have "finite {p. os_path_exists (toy_world [''d'']) (fs ?s) p}"
    by (rule toy_exists_finite)
  then have h2: "finite {p. os_path_exists ?w (fs ?s) p}"
    by simp
  have c1: "os_path_exists ?w (fs ?s) (candidate ''d/Smith2020'' 1 ''.pdf'')"
    by code_simp
  have c2: "\<not> os_path_exists ?w (fs ?s) (candidate ''d/Smith2020'' 2 ''.pdf'')"
    by code_simp
  have least: "(LEAST k. ?free k) = 2"
  proof (rule Least_equality)
    show "?free 2" using c2 by simp
  next
    fix j
    assume j: "?free j"
    with c1 have "j \<noteq> 1" by auto
    with j show "2 \<le> j" by simp
  qed
  have mv: "os_rename ?w (fs ?s) ''d/a.pdf'' (candidate ''d/Smith2020'' 2 ''.pdf'')
              = Inr [''d/Smith2020 (2).pdf'', ''d/Smith2020.pdf'']"
    by code_simp
  have h3: "os_rename ?w (fs ?s) ''d/a.pdf'' (candidate ''d/Smith2020'' (LEAST k. ?free k) ''.pdf'')
              = Inr [''d/Smith2020 (2).pdf'', ''d/Smith2020.pdf'']"
    by (simp only: least mv)
  from rename_file_first_free [OF h1 h2 h3]
  obtain k where "k = (LEAST k. ?free k)"
    and "rename_file ?w ''d/a.pdf'' ''d/Smith2020'' ''.pdf'' ?s =
      Some (Inr (candidate ''d/Smith2020'' k ''.pdf''),
            ?s\<lparr>fs := [''d/Smith2020 (2).pdf'', ''d/Smith2020.pdf''],
                renames := renames ?s @ [(''d/a.pdf'', candidate ''d/Smith2020'' k ''.pdf'')]\<rparr>)"
    by (elim exE conjE)
  then have "rename_file ?w ''d/a.pdf'' ''d/Smith2020'' ''.pdf'' ?s =
      Some (Inr (candidate ''d/Smith2020'' 2 ''.pdf''),
            ?s\<lparr>fs := [''d/Smith2020 (2).pdf'', ''d/Smith2020.pdf''],
                renames := renames ?s @ [(''d/a.pdf'', candidate ''d/Smith2020'' 2 ''.pdf'')]\<rparr>)"
    by (simp only: least)
  moreover have "candidate ''d/Smith2020'' 2 ''.pdf'' = ''d/Smith2020 (2).pdf''"
    by code_simp
  ultimately have run: "rename_file ?w ''d/a.pdf'' ''d/Smith2020'' ''.pdf'' ?s =
     Some (Inr ''d/Smith2020 (2).pdf'',
           \<lparr>fs = [''d/Smith2020 (2).pdf'', ''d/Smith2020.pdf''], logs = [],
            renames = [(''d/a.pdf'', ''d/Smith2020 (2).pdf'')]\<rparr>)"
    by (simp add: toy_state_def)
  from h1 h2 least mv run show ?thesis by (intro conjI)
qed




subsection \<open>When the loop returns\<close>

lemma first_free_step:
  assumes "os_path_exists w (fs s) (candidate new_path i ext)"
    and "first_free w s new_path ext (i + 1) k"
  shows "first_free w s new_path ext i k"
  unfolding first_free_def
proof (intro conjI allI impI)
  show "i \<le> k" using assms(2) by (simp add: first_free_def)
next
  fix j assume j: "i \<le> j \<and> j < k"
  show "os_path_exists w (fs s) (candidate new_path j ext)"
  proof (cases "j = i")
    case True
    with assms(1) show ?thesis by simp
  next
    case False
    with j have "i + 1 \<le> j \<and> j < k" by simp
    with assms(2) show ?thesis by (simp add: first_free_def)
  qed
next
  show "\<not> os_path_exists w (fs s) (candidate new_path k ext)"
    using assms(2) by (simp add: first_free_def)
qed

lemma rename_file_loop_SomeD:
  assumes "rename_file_loop w old_path new_path ext i s = Some y"
  shows "\<exists>k. first_free w s new_path ext i k \<and> y = loop_result w old_path (candidate new_path k ext) s"
proof (rule rename_file_loop.raw_induct
    [where P = "\<lambda>w old_path new_path ext i s y.
       \<exists>k. first_free w s new_path ext i k \<and> y = loop_result w old_path (candidate new_path k ext) s",
     OF _ assms])
  fix loop :: "'a world \<Rightarrow> path \<Rightarrow> path \<Rightarrow> string \<Rightarrow> nat \<Rightarrow> 'a state \<Rightarrow> ((exn + path) \<times> 'a state) option"
  fix w old_path new_path ext i s y
  assume IH: "\<And>w old_path new_path ext i s y. loop w old_path new_path ext i s = Some y \<Longrightarrow>
     \<exists>k. first_free w s new_path ext i k \<and> y = loop_result w old_path (candidate new_path k ext) s"
  assume step: "(if os_path_exists w (fs s) (candidate new_path i ext)
      then loop w old_path new_path ext (i + 1) s
      else case os_rename w (fs s) old_path (candidate new_path i ext) of
             Inl e \<Rightarrow> Some (Inl e, s)
           | Inr fs' \<Rightarrow>
               Some (Inr (candidate new_path i ext),
                     s\<lparr>fs := fs', renames := renames s @ [(old_path, candidate new_path i ext)]\<rparr>)) = Some y"
  show "\<exists>k. first_free w s new_path ext i k \<and> y = loop_result w old_path (candidate new_path k ext) s"
  proof (cases "os_path_exists w (fs s) (candidate new_path i ext)")
    case True
    with step have "loop w old_path new_path ext (i + 1) s = Some y" by simp
    then have "\<exists>k. first_free w s new_path ext (i + 1) k \<and>
                   y = loop_result w old_path (candidate new_path k ext) s"
      by (rule IH)
    then obtain k where "first_free w s new_path ext (i + 1) k"
      and "y = loop_result w old_path (candidate new_path k ext) s"
      by (elim exE conjE)
    with True first_free_step show ?thesis by blast
  next
    case False
    with step have "y = loop_result w old_path (candidate new_path i ext) s"
      by (simp add: loop_result_def split: sum.splits)
    moreover from False have "first_free w s new_path ext i i"
      by (auto simp: first_free_def)
    ultimately show ?thesis by blast
  qed
qed


lemma rename_file_loop_first_free:
  assumes "first_free w s new_path ext i k"
  shows "rename_file_loop w old_path new_path ext i s =
           Some (loop_result w old_path (candidate new_path k ext) s)"
proof -
  have "rename_file_loop w old_path new_path ext i s = rename_file_loop w old_path new_path ext k s"
    using assms by (intro rename_file_loop_skip) (auto simp: first_free_def)
  also have "\<dots> = Some (loop_result w old_path (candidate new_path k ext) s)"
    using assms
    by (subst rename_file_loop.simps) (simp add: first_free_def loop_result_def split: sum.splits)
  finally show ?thesis .
qed



lemma first_free_same_fs:
  assumes "fs s2 = fs s" and "first_free w s new_path ext i k"
  shows "first_free w s2 new_path ext i k"
  using assms by (simp add: first_free_def)

lemma loop_result_Inl:
  "loop_result w old_path p s = (Inl e, s1) \<longleftrightarrow> os_rename w (fs s) old_path p = Inl e \<and> s1 = s"
  by (cases "os_rename w (fs s) old_path p") (auto simp: loop_result_def)




lemma rename_file_raises_same_fs:
  assumes "rename_file w old_path new_path ext s = Some (Inl e, s1)"
    and "fs s2 = fs s"
  shows "rename_file w old_path new_path ext s2 = Some (Inl e, s2)"
proof (cases "os_path_exists w (fs s) old_path")
  case False
  with assms show ?thesis by (simp add: rename_file_def)
next
  case True
  with assms(1) have "rename_file_loop w old_path new_path ext 1 s = Some (Inl e, s1)"
    by (simp add: rename_file_def)
  from rename_file_loop_SomeD [OF this] obtain k where k: "first_free w s new_path ext 1 k"
    and res: "(Inl e, s1) = loop_result w old_path (candidate new_path k ext) s"
    by (elim exE conjE)
  from res [symmetric] have mv: "os_rename w (fs s) old_path (candidate new_path k ext) = Inl e"
    by (simp only: loop_result_Inl)
  from assms(2) k have "first_free w s2 new_path ext 1 k"
    by (rule first_free_same_fs)
  then have "rename_file_loop w old_path new_path ext 1 s2 =
               Some (loop_result w old_path (candidate new_path k ext) s2)"
    by (rule rename_file_loop_first_free)
  moreover have "loop_result w old_path (candidate new_path k ext) s2 = (Inl e, s2)"
    using mv assms(2) by (simp only: loop_result_Inl simp_thms)
  moreover have "rename_file w old_path new_path ext s2 = rename_file_loop w old_path new_path ext 1 s2"
    using True assms(2) by (simp add: rename_file_def)
  ultimately show ?thesis by simp
qed


section \<open>Properties of \<open>rename\<close> on one file\<close>

lemma fs_logger [simp]:
  "fs (logger_info m s) = fs s" "fs (logger_error m s) = fs s"
  "renames (logger_info m s) = renames s" "renames (logger_error m s) = renames s"
  "logs (logger_info m s) = logs s @ [(INFO, m)]" "logs (logger_error m s) = logs s @ [(ERROR, m)]"
  by (simp_all add: logger_info_def logger_error_def)

lemma mk_result_sel [simp]:
  "path_new (mk_result r orig new) = new"
  "path_original (mk_result r orig new) = orig"
  "identifier' (mk_result r orig new) = identifier' r"
  "identifier_type (mk_result r orig new) = identifier_type r"
  "validation_info (mk_result r orig new) = validation_info r"
  "path (mk_result r orig new) = path r"
  "method' (mk_result r orig new) = method' r"
  "metadata (mk_result r orig new) = metadata r"
  "bibtex (mk_result r orig new) = bibtex r"
  "resolved.truncate (mk_result r orig new) = r"
  by (simp_all add: mk_result_def resolved.defs result.defs)

lemma rename_Suc_file:
  assumes "effective_tags w (effective_format w format) tags = Some tgs"
    and "os_path_exists w (fs s) target"
    and "\<not> os_path_isdir w (fs s) target"
  shows "rename (Suc n) w target format tags s =
           rename_single w target (effective_format w format) tgs s"
  using assms by simp



text \<open>
  C6, as the code has it: for a target that exists, is not a directory and does not end
  in \<open>.pdf\<close> (in any case), \<open>rename\<close> with a valid format returns \<open>None\<close>, not a
  dictionary; it logs the error and raises nothing. Only the log changes.
\<close>

theorem rename_not_pdf:
  assumes "effective_tags w (effective_format w format) tags = Some tgs"
    and "os_path_exists w (fs s) target"
    and "\<not> os_path_isdir w (fs s) target"
    and "\<not> endswith (lower target) ''.pdf''"
  shows "rename (Suc n) w target format tags s =
           Some (Inr PNone,
                 s\<lparr>logs := logs s @ [(INFO, ''File: '' @ target),
                                      (ERROR, ''The file must have .pdf extension.'')]\<rparr>)"
  using assms by (simp add: rename_single_def logger_info_def logger_error_def)




text \<open>
  C7: when the resolver gave an identifier and metadata, the built name differs from the
  path, and \<open>rename_file\<close> raises, \<open>rename\<close> catches the exception: it returns the
  resolver's dictionary with every field as the resolver gave it, \<open>path_original\<close>
  set and \<open>path_new\<close> \<open>None\<close>, and logs the error. Nothing is renamed.
\<close>

theorem rename_file_failure_keeps_result:
  assumes "effective_tags w (effective_format w format) tags = Some tgs"
    and "os_path_exists w (fs s) target"
    and "\<not> os_path_isdir w (fs s) target"
    and "endswith (lower target) ''.pdf''"
    and "pdf2bib_singlefile w (fs s) target = Inr r"
    and "truthy_seq (metadata r)" and "truthy_str (identifier' r)"
    and "build_filename w (the (metadata r)) (effective_format w format) tgs = Inr NewName"
    and "pathlib_parent w target @ os_path_sep w @ NewName @ lower (snd (os_path_splitext w target)) \<noteq> target"
    and "rename_file w target (pathlib_parent w target @ os_path_sep w @ NewName)
           (lower (snd (os_path_splitext w target))) s = Some (Inl e, s1)"
  shows "\<exists>res s'. rename (Suc n) w target format tags s = Some (Inr (PDict res), s')
           \<and> path_new res = None \<and> path_original res = target
           \<and> resolved.truncate res = r
           \<and> identifier' res = identifier' r \<and> metadata res = metadata r
           \<and> fs s' = fs s \<and> renames s' = renames s
           \<and> last (logs s') = (ERROR, ''Some error occured while trying to rename this file: '' @
                                        [CHR 0x0A] @ '' '' @ exn_str e)"
proof -
  let ?fmt = "effective_format w format"
  let ?NewPath = "pathlib_parent w target @ os_path_sep w @ NewName"
  let ?ext = "lower (snd (os_path_splitext w target))"
  define s5 where "s5 =
    logger_info (''The new file name is '' @ ?NewPath @ ?ext)
     (logger_info (''Found the following data:'' @ metadata_string (the (metadata r)))
       (logger_info (''Found bibtex data and an identifier for this file: '' @
                        str_opt (identifier' r) @ '' ('' @ str_opt (identifier_type r) @ '').'')
         (logger_info ''Calling the pdf2bib library to retrieve the bibtex info of this file.''
           (logger_info (''File: '' @ target) s))))"
  have "fs s5 = fs s" by (simp add: s5_def)
  from rename_file_raises_same_fs [OF assms(10) this]
  have rf: "rename_file w target ?NewPath ?ext s5 = Some (Inl e, s5)" .
  have "rename (Suc n) w target format tags s = rename_single w target ?fmt tgs s"
    using assms(1-3) by simp
  also have "\<dots> = Some (Inr (PDict (mk_result r target None)),
       logger_error (''Some error occured while trying to rename this file: '' @
                     [CHR 0x0A] @ '' '' @ exn_str e) s5)"
    using assms(2-9) rf unfolding rename_single_def Let_def s5_def by simp
  finally show ?thesis
    by (simp add: s5_def)
qed

lemma return_files_processed_not_dict: "return_files_processed fp \<noteq> Inr (PDict r)"
  by (cases fp) simp_all

lemma rename_dir_not_dict:
  "rename_dir call w target s \<noteq> Some (Inr (PDict res), s')"
  by (auto simp: rename_dir_def Let_def return_files_processed_not_dict
           split: option.splits sum.splits prod.splits)

lemma rename_single_dictD:
  assumes "rename_single w target format tags s = Some (Inr (PDict res), s')"
  shows "\<exists>r. pdf2bib_singlefile w (fs s) target = Inr r \<and> resolved.truncate res = r
           \<and> path_original res = target
           \<and> (path_new res \<noteq> None \<longrightarrow> truthy_seq (metadata r) \<and> truthy_str (identifier' r))"
proof (cases "pdf2bib_singlefile w (fs s) target")
  case (Inl e)
  with assms show ?thesis
    by (simp add: rename_single_def Let_def split: if_splits)
next
  case (Inr r)
  show ?thesis
  proof (cases "truthy_seq (metadata r) \<and> truthy_str (identifier' r)")
    case False
    with assms Inr have "res = mk_result r target None"
      by (auto simp: rename_single_def Let_def split: if_splits)
    with Inr show ?thesis by simp
  next
    case True
    with assms Inr have "\<exists>new. res = mk_result r target new"
      by (auto simp: rename_single_def Let_def split: if_splits sum.splits option.splits prod.splits)
    with Inr True show ?thesis by auto
  qed
qed

text \<open>
  C4: every dictionary that \<open>rename\<close> returns comes from the resolver's dictionary
  for that file. In it \<open>path_new\<close> is a path only if \<open>identifier\<close> and
  \<open>metadata\<close> are both there (and not empty); when the resolver found no identifier
  or no metadata, \<open>path_new\<close> is \<open>None\<close>, which is not \<open>path_original\<close>.
\<close>

theorem path_new_needs_identifier_and_metadata:
  assumes "rename n w target format tags s = Some (Inr (PDict res), s')"
  shows "\<exists>r. pdf2bib_singlefile w (fs s) target = Inr r
           \<and> identifier' res = identifier' r \<and> metadata res = metadata r
           \<and> path_original res = target
           \<and> (path_new res \<noteq> None \<longrightarrow>
                 truthy_str (identifier' res) \<and> truthy_seq (metadata res)
                 \<and> identifier' res \<noteq> None \<and> metadata res \<noteq> None)
           \<and> (\<not> truthy_str (identifier' r) \<or> \<not> truthy_seq (metadata r) \<longrightarrow>
                 path_new res = None \<and> path_new res \<noteq> Some (path_original res))"
proof (cases n)
  case 0
  with assms show ?thesis by simp
next
  case (Suc m)
  with assms have "\<exists>fmt tgs. rename_single w target fmt tgs s = Some (Inr (PDict res), s')"
    by (auto simp: Let_def rename_dir_not_dict split: option.splits if_splits)
  then obtain fmt tgs where "rename_single w target fmt tgs s = Some (Inr (PDict res), s')"
    by (elim exE)
  from rename_single_dictD [OF this] obtain r where r: "pdf2bib_singlefile w (fs s) target = Inr r"
    "resolved.truncate res = r" "path_original res = target"
    "path_new res \<noteq> None \<longrightarrow> truthy_seq (metadata r) \<and> truthy_str (identifier' r)"
    by (elim exE conjE)
  from r(2) have sel: "identifier' res = identifier' r" "metadata res = metadata r"
    by (auto simp: resolved.defs)
  have "truthy_str (identifier' r) \<Longrightarrow> identifier' r \<noteq> None"
    by (cases "identifier' r") simp_all
  moreover have "truthy_seq (metadata r) \<Longrightarrow> metadata r \<noteq> None"
    by (cases "metadata r") simp_all
  ultimately show ?thesis
    using r(1,3,4) sel by (intro exI [of _ r]) auto
qed


section \<open>The properties on the example filesystem\<close>

text \<open>
  C6 as the specification states it does not hold: for \<open>d/notes.txt\<close>, an existing
  file that is not a pdf, the call does not return a result record.
\<close>

theorem rename_not_pdf_counterexample:
  "\<not> returns_result_record
       (rename 1 (toy_world [''d'']) ''d/notes.txt'' None None (toy_state [''d/notes.txt'']))"
  by code_simp

theorem rename_not_pdf_witness:
  "effective_tags (toy_world [''d'']) (effective_format (toy_world [''d'']) None) None = Some [''{T}'']
   \<and> os_path_exists (toy_world [''d'']) (fs (toy_state [''d/notes.txt''])) ''d/notes.txt''
   \<and> \<not> os_path_isdir (toy_world [''d'']) (fs (toy_state [''d/notes.txt''])) ''d/notes.txt''
   \<and> \<not> endswith (lower ''d/notes.txt'') ''.pdf''
   \<and> rename 1 (toy_world [''d'']) ''d/notes.txt'' None None (toy_state [''d/notes.txt'']) =
         Some (Inr PNone,
               \<lparr>fs = [''d/notes.txt''],
                logs = [(INFO, ''File: d/notes.txt''), (ERROR, ''The file must have .pdf extension.'')],
                renames = []\<rparr>)"
proof -
  let ?w = "toy_world [''d'']" and ?s = "toy_state [''d/notes.txt'']"
  have h1: "effective_tags ?w (effective_format ?w None) None = Some [''{T}'']" by code_simp
  have h2: "os_path_exists ?w (fs ?s) ''d/notes.txt''" by code_simp
  have h3: "\<not> os_path_isdir ?w (fs ?s) ''d/notes.txt''" by code_simp
  have h4: "\<not> endswith (lower ''d/notes.txt'') ''.pdf''" by code_simp
  from rename_not_pdf [OF h1 h2 h3 h4, of 0]
  have "rename 1 ?w ''d/notes.txt'' None None ?s =
         Some (Inr PNone,
               \<lparr>fs = [''d/notes.txt''],
                logs = [(INFO, ''File: d/notes.txt''), (ERROR, ''The file must have .pdf extension.'')],
                renames = []\<rparr>)"
    by (simp add: toy_state_def)
  with h1 h2 h3 h4 show ?thesis by (intro conjI)
qed


theorem rename_file_failure_keeps_result_witness:
  "effective_tags ((toy_world [''d''])\<lparr>os_rename := \<lambda>t old new. Inl (OSError ''Permission denied'')\<rparr>)
      (effective_format ((toy_world [''d''])\<lparr>os_rename := \<lambda>t old new. Inl (OSError ''Permission denied'')\<rparr>) None) None
      = Some [''{T}'']
   \<and> os_path_exists ((toy_world [''d''])\<lparr>os_rename := \<lambda>t old new. Inl (OSError ''Permission denied'')\<rparr>)
        (fs (toy_state [''d/a.pdf''])) ''d/a.pdf''
   \<and> \<not> os_path_isdir ((toy_world [''d''])\<lparr>os_rename := \<lambda>t old new. Inl (OSError ''Permission denied'')\<rparr>)
        (fs (toy_state [''d/a.pdf''])) ''d/a.pdf''
   \<and> endswith (lower ''d/a.pdf'') ''.pdf''
   \<and> pdf2bib_singlefile ((toy_world [''d''])\<lparr>os_rename := \<lambda>t old new. Inl (OSError ''Permission denied'')\<rparr>)
        (fs (toy_state [''d/a.pdf''])) ''d/a.pdf'' = Inr smith2020
   \<and> truthy_seq (metadata smith2020) \<and> truthy_str (identifier' smith2020)
   \<and> rename_file ((toy_world [''d''])\<lparr>os_rename := \<lambda>t old new. Inl (OSError ''Permission denied'')\<rparr>)
        ''d/a.pdf'' ''d/Smith2020'' ''.pdf'' (toy_state [''d/a.pdf''])
        = Some (Inl (OSError ''Permission denied''), toy_state [''d/a.pdf''])
   \<and> (\<exists>res s'. rename 1 ((toy_world [''d''])\<lparr>os_rename := \<lambda>t old new. Inl (OSError ''Permission denied'')\<rparr>)
                     ''d/a.pdf'' None None (toy_state [''d/a.pdf'']) = Some (Inr (PDict res), s')
           \<and> path_new res = None \<and> path_original res = ''d/a.pdf''
           \<and> resolved.truncate res = smith2020
           \<and> identifier' res = Some ''10.1000/182''
           \<and> metadata res = Some [(''title'', ''Smith2020''), (''year'', ''2020'')]
           \<and> fs s' = [''d/a.pdf''] \<and> renames s' = []
           \<and> last (logs s') = (ERROR, ''Some error occured while trying to rename this file: '' @
                                        [CHR 0x0A] @ '' Permission denied''))"
proof -
  let ?w = "(toy_world [''d''])\<lparr>os_rename := \<lambda>t old new. Inl (OSError ''Permission denied'')\<rparr>"
  let ?s = "toy_state [''d/a.pdf'']" and ?t = "''d/a.pdf''"
  have h1: "effective_tags ?w (effective_format ?w None) None = Some [''{T}'']" by code_simp
  have h2: "os_path_exists ?w (fs ?s) ?t" by code_simp
  have h3: "\<not> os_path_isdir ?w (fs ?s) ?t" by code_simp
  have h4: "endswith (lower ?t) ''.pdf''" by code_simp
  have h5: "pdf2bib_singlefile ?w (fs ?s) ?t = Inr smith2020" by code_simp
  have h6: "truthy_seq (metadata smith2020)" by code_simp
  have h7: "truthy_str (identifier' smith2020)" by code_simp
  have h8: "build_filename ?w (the (metadata smith2020)) (effective_format ?w None) [''{T}''] = Inr ''Smith2020''"
    by code_simp
  have h9: "pathlib_parent ?w ?t @ os_path_sep ?w @ ''Smith2020'' @ lower (snd (os_path_splitext ?w ?t)) \<noteq> ?t"
    by code_simp
  have h10: "rename_file ?w ?t (pathlib_parent ?w ?t @ os_path_sep ?w @ ''Smith2020'')
               (lower (snd (os_path_splitext ?w ?t))) ?s = Some (Inl (OSError ''Permission denied''), ?s)"
    by code_simp
  have h10': "rename_file ?w ?t ''d/Smith2020'' ''.pdf'' ?s = Some (Inl (OSError ''Permission denied''), ?s)"
    by code_simp
  have sel: "identifier' smith2020 = Some ''10.1000/182''"
    "metadata smith2020 = Some [(''title'', ''Smith2020''), (''year'', ''2020'')]"
    by (simp_all add: smith2020_def)
  from rename_file_failure_keeps_result [OF h1 h2 h3 h4 h5 h6 h7 h8 h9 h10, of 0]
  have c: "\<exists>res s'. rename 1 ?w ?t None None ?s = Some (Inr (PDict res), s')
           \<and> path_new res = None \<and> path_original res = ?t
           \<and> resolved.truncate res = smith2020
           \<and> identifier' res = Some ''10.1000/182''
           \<and> metadata res = Some [(''title'', ''Smith2020''), (''year'', ''2020'')]
           \<and> fs s' = [''d/a.pdf''] \<and> renames s' = []
           \<and> last (logs s') = (ERROR, ''Some error occured while trying to rename this file: '' @
                                        [CHR 0x0A] @ '' Permission denied'')"
    by (simp add: toy_state_def sel)
  from h1 h2 h3 h4 h5 h6 h7 h10' c show ?thesis by (intro conjI)
qed

theorem path_new_needs_identifier_and_metadata_witness:
  "rename 1 (toy_world [''d'']) ''d/unknown.pdf'' None None (toy_state [''d/unknown.pdf''])
     = Some (Inr (PDict (mk_result nothing_found ''d/unknown.pdf'' None)),
             \<lparr>fs = [''d/unknown.pdf''],
              logs = [(INFO, ''File: d/unknown.pdf''),
                      (INFO, ''Calling the pdf2bib library to retrieve the bibtex info of this file.''),
                      (INFO, ''The pdf2doi library was not able to find an identifier for this pdf file.'')],
              renames = []\<rparr>)
   \<and> (\<exists>r. pdf2bib_singlefile (toy_world [''d'']) (fs (toy_state [''d/unknown.pdf''])) ''d/unknown.pdf'' = Inr r
          \<and> \<not> truthy_str (identifier' r)
          \<and> path_new (mk_result nothing_found ''d/unknown.pdf'' None) = None
          \<and> path_new (mk_result nothing_found ''d/unknown.pdf'' None)
               \<noteq> Some (path_original (mk_result nothing_found ''d/unknown.pdf'' None)))"
proof -
  let ?w = "toy_world [''d'']" and ?s = "toy_state [''d/unknown.pdf'']" and ?t = "''d/unknown.pdf''"
  let ?res = "mk_result nothing_found ?t None"
  have run: "rename 1 ?w ?t None None ?s
     = Some (Inr (PDict ?res),
             \<lparr>fs = [''d/unknown.pdf''],
              logs = [(INFO, ''File: d/unknown.pdf''),
                      (INFO, ''Calling the pdf2bib library to retrieve the bibtex info of this file.''),
                      (INFO, ''The pdf2doi library was not able to find an identifier for this pdf file.'')],
              renames = []\<rparr>)"
    by code_simp
  from path_new_needs_identifier_and_metadata [OF run]
  obtain r where r: "pdf2bib_singlefile ?w (fs ?s) ?t = Inr r"
    "identifier' ?res = identifier' r"
    "\<not> truthy_str (identifier' r) \<or> \<not> truthy_seq (metadata r) \<longrightarrow>
       path_new ?res = None \<and> path_new ?res \<noteq> Some (path_original ?res)"
    by (elim exE conjE)
  from r(2) have "\<not> truthy_str (identifier' r)"
    by (simp add: nothing_found_def)
  with r(1,3) have "\<exists>r. pdf2bib_singlefile ?w (fs ?s) ?t = Inr r
          \<and> \<not> truthy_str (identifier' r)
          \<and> path_new ?res = None \<and> path_new ?res \<noteq> Some (path_original ?res)"
    by blast
  with run show ?thesis by (intro conjI)
qed

text \<open>
  C1: a folder that exists and has no pdf file of its own. The local variable
  \<open>files_processed\<close> is assigned only in the branch for folders with a pdf file, so
  \<open>return files_processed\<close> raises \<open>UnboundLocalError\<close>: the call returns no list.
  The first folder holds one text file; the second holds its only pdf in a subfolder,
  and subfolders are not explored.
\<close>

theorem folder_without_pdf_raises:
  "map_option fst (rename 2 (toy_world [''d'']) ''d'' None None (toy_state [''d/notes.txt'']))
     = Some (Inl (UnboundLocalError ''files_processed''))
   \<and> map_option fst (rename 2 (toy_world [''d'', ''d/s'']) ''d'' None None (toy_state [''d/s/a.pdf'']))
     = Some (Inl (UnboundLocalError ''files_processed''))"
  by code_simp

text \<open>
  C2: a pdf file on which the resolver raises. The handler logs the error and then
  assigns to \<open>result['path_new']\<close>, but \<open>result\<close> has no value, so the call raises
  \<open>UnboundLocalError\<close>. In a folder the exception leaves the walk at that file: the
  file listed after it is not processed and no list is returned.
\<close>

theorem resolver_exception_escapes:
  "map_option fst (rename 1 (toy_world [''d'']) ''d/bad.pdf'' None None (toy_state [''d/bad.pdf'', ''d/a.pdf'']))
     = Some (Inl (UnboundLocalError ''result''))
   \<and> rename 2 (toy_world [''d'']) ''d'' None None (toy_state [''d/bad.pdf'', ''d/a.pdf''])
     = Some (Inl (UnboundLocalError ''result''),
         \<lparr>fs = [''d/bad.pdf'', ''d/a.pdf''],
          logs = [(INFO, ''Looking for pdf files and subfolders in the folder d...''),
                  (INFO, ''Found 2 pdf file(s).''),
                  (INFO, ''................''),
                  (INFO, ''File: d/bad.pdf''),
                  (INFO, ''Calling the pdf2bib library to retrieve the bibtex info of this file.''),
                  (ERROR, ''Some unexpected error occured while using pdf2bib to process this file: '' @
                          [CHR 0x0A] @ '' not a pdf'')],
          renames = []\<rparr>)"
  by code_simp


section \<open>The format check and the tags\<close>

lemma rename_file_loop_world_Some:
  assumes "os_path_exists w' = os_path_exists w" and "os_rename w' = os_rename w"
    and "rename_file_loop w old_path new_path ext i s = Some y"
  shows "rename_file_loop w' old_path new_path ext i s = Some y"
proof -
  from rename_file_loop_SomeD [OF assms(3)] obtain k where k: "first_free w s new_path ext i k"
    and y: "y = loop_result w old_path (candidate new_path k ext) s"
    by (elim exE conjE)
  from k assms(1) have "first_free w' s new_path ext i k"
    by (simp add: first_free_def)
  then have "rename_file_loop w' old_path new_path ext i s =
               Some (loop_result w' old_path (candidate new_path k ext) s)"
    by (rule rename_file_loop_first_free)
  moreover have "loop_result w' old_path (candidate new_path k ext) s = y"
    using assms(2) y by (simp add: loop_result_def)
  ultimately show ?thesis by simp
qed

lemma rename_file_loop_world_cong:
  assumes "os_path_exists w' = os_path_exists w" and "os_rename w' = os_rename w"
  shows "rename_file_loop w' old_path new_path ext i s = rename_file_loop w old_path new_path ext i s"
proof (cases "rename_file_loop w old_path new_path ext i s")
  case (Some y)
  with rename_file_loop_world_Some [OF assms] show ?thesis by simp
next
  case None
  show ?thesis
  proof (cases "rename_file_loop w' old_path new_path ext i s")
    case None
    with \<open>rename_file_loop w old_path new_path ext i s = None\<close> show ?thesis by simp
  next
    case (Some y)
    from rename_file_loop_world_Some [OF assms [symmetric] this] None show ?thesis by simp
  qed
qed

lemma rename_file_validator:
  "rename_file (w\<lparr>check_format_is_valid := c\<rparr>) old_path new_path ext s =
   rename_file w old_path new_path ext s"
  by (simp add: rename_file_def rename_file_loop_world_cong [of "w\<lparr>check_format_is_valid := c\<rparr>" w])

lemma rename_single_validator:
  "rename_single (w\<lparr>check_format_is_valid := c\<rparr>) target format tags s =
   rename_single w target format tags s"
  by (simp add: rename_single_def Let_def rename_file_validator
           cong: sum.case_cong option.case_cong if_cong)

lemma rename_dir_validator:
  "rename_dir call (w\<lparr>check_format_is_valid := c\<rparr>) target s = rename_dir call w target s"
proof -
  have sub: "\<And>subfolders fp s1. walk_subfolders call (w\<lparr>check_format_is_valid := c\<rparr>) subfolders fp s1 =
        walk_subfolders call w subfolders fp s1"
    by (simp add: walk_subfolders_def)
  show ?thesis
    unfolding rename_dir_def sub by simp
qed

lemma effective_tags_truthy: "truthy_seq tags \<Longrightarrow> effective_tags w format tags = tags"
  by (simp add: effective_tags_def)

lemma truthy_seq_SomeD: "truthy_seq tags \<Longrightarrow> \<exists>tgs. tags = Some tgs \<and> tgs \<noteq> []"
  by (cases tags) simp_all

lemma rename_validator_unused:
  assumes "truthy_seq tags"
  shows "rename n (w\<lparr>check_format_is_valid := c\<rparr>) target format tags s =
         rename n w target format tags s"
  using assms
proof (induction n arbitrary: target format tags s)
  case 0
  show ?case by simp
next
  case (Suc n)
  from truthy_seq_SomeD [OF Suc.prems] obtain tgs where tgs: "tags = Some tgs" "tgs \<noteq> []"
    by (elim exE conjE)
  let ?w' = "w\<lparr>check_format_is_valid := c\<rparr>"
  have fmt: "effective_format ?w' format = effective_format w format"
    by (simp add: effective_format_def)
  have et: "effective_tags ?w' (effective_format w format) tags = Some tgs"
    "effective_tags w (effective_format w format) tags = Some tgs"
    using tgs by (simp_all add: effective_tags_def)
  have calls: "(\<lambda>p. rename n ?w' p (Some (effective_format w format)) (Some tgs)) =
               (\<lambda>p. rename n w p (Some (effective_format w format)) (Some tgs))"
  proof (rule ext, rule ext)
    fix p s0
    show "rename n ?w' p (Some (effective_format w format)) (Some tgs) s0 =
          rename n w p (Some (effective_format w format)) (Some tgs) s0"
      using tgs(2) by (intro Suc.IH) simp
  qed
  show ?case
    by (simp add: Let_def fmt et calls rename_single_validator rename_dir_validator)
qed


text \<open>
  C10: when the caller passes tags that are not empty, \<open>rename\<close> never calls
  \<open>check_format_is_valid\<close>: the call gives the same result whatever the validator
  is, even one that rejects every format. The tags are used as given, the early
  \<open>return None\<close> is not taken, and for a file the format goes on, unchecked, to the
  branch that calls \<open>build_filename\<close> with it.
\<close>

theorem truthy_tags_skip_format_check:
  assumes "truthy_seq tags"
  shows "rename n (w\<lparr>check_format_is_valid := c\<rparr>) target format tags s =
           rename n w target format tags s
         \<and> effective_tags (w\<lparr>check_format_is_valid := c\<rparr>) (effective_format w format) tags = tags
         \<and> (os_path_exists w (fs s) target \<and> \<not> os_path_isdir w (fs s) target \<longrightarrow>
              rename (Suc n) w target format tags s =
                rename_single w target (effective_format w format) (the tags) s)"
proof (intro conjI impI)
  show "rename n (w\<lparr>check_format_is_valid := c\<rparr>) target format tags s =
        rename n w target format tags s"
    using assms by (rule rename_validator_unused)
next
  show "effective_tags (w\<lparr>check_format_is_valid := c\<rparr>) (effective_format w format) tags = tags"
    using assms by (rule effective_tags_truthy)
next
  assume "os_path_exists w (fs s) target \<and> \<not> os_path_isdir w (fs s) target"
  moreover from truthy_seq_SomeD [OF assms] obtain tgs where "tags = Some tgs"
    by (elim exE conjE)
  moreover have "effective_tags w (effective_format w format) tags = tags"
    using assms by (rule effective_tags_truthy)
  ultimately show "rename (Suc n) w target format tags s =
      rename_single w target (effective_format w format) (the tags) s"
    by (simp add: Let_def)
qed

theorem truthy_tags_skip_format_check_witness:
  "truthy_seq (Some [''{T}''])
   \<and> check_format_is_valid
        ((toy_world [''d''])\<lparr>build_filename := \<lambda>m f t. Inr f, check_format_is_valid := \<lambda>f. None\<rparr>)
        ''%bogus'' = None
   \<and> map_option fst
        (rename 1 ((toy_world [''d''])\<lparr>build_filename := \<lambda>m f t. Inr f, check_format_is_valid := \<lambda>f. None\<rparr>)
           ''d/a.pdf'' (Some ''%bogus'') (Some [''{T}'']) (toy_state [''d/a.pdf'']))
       = Some (Inr (PDict (mk_result smith2020 ''d/a.pdf'' (Some ''d/%bogus.pdf''))))
   \<and> map_option fst
        (rename 1 ((toy_world [''d''])\<lparr>build_filename := \<lambda>m f t. Inr f, check_format_is_valid := \<lambda>f. None\<rparr>)
           ''d/a.pdf'' (Some ''%bogus'') None (toy_state [''d/a.pdf'']))
       = Some (Inr PNone)"
proof -
  let ?base = "(toy_world [''d''])\<lparr>build_filename := \<lambda>m f t. Inr f\<rparr>"
  let ?strict = "(toy_world [''d''])\<lparr>build_filename := \<lambda>m f t. Inr f, check_format_is_valid := \<lambda>f. None\<rparr>"
  let ?s = "toy_state [''d/a.pdf'']"
  have h: "truthy_seq (Some [''{T}''])" by simp
  have v: "check_format_is_valid ?strict ''%bogus'' = None" by simp
  from truthy_tags_skip_format_check [OF h, where n = 1 and w = ?base and c = "\<lambda>f. None"
      and target = "''d/a.pdf''" and format = "Some ''%bogus''" and s = ?s]
  have "rename 1 ?strict ''d/a.pdf'' (Some ''%bogus'') (Some [''{T}'']) ?s =
        rename 1 ?base ''d/a.pdf'' (Some ''%bogus'') (Some [''{T}'']) ?s"
    by (elim conjE)
  moreover have "map_option fst (rename 1 ?base ''d/a.pdf'' (Some ''%bogus'') (Some [''{T}'']) ?s) =
        Some (Inr (PDict (mk_result smith2020 ''d/a.pdf'' (Some ''d/%bogus.pdf''))))"
    by code_simp
  ultimately have run: "map_option fst (rename 1 ?strict ''d/a.pdf'' (Some ''%bogus'') (Some [''{T}'']) ?s) =
        Some (Inr (PDict (mk_result smith2020 ''d/a.pdf'' (Some ''d/%bogus.pdf''))))"
    by simp
  have none: "map_option fst (rename 1 ?strict ''d/a.pdf'' (Some ''%bogus'') None ?s) = Some (Inr PNone)"
    by code_simp
  from h v run none show ?thesis by (intro conjI)
qed


section \<open>The order of a walk\<close>

lemma files_loop_in_order:
  "files_loop call target pdf_files acc s =
     (case in_order (file_step call target) pdf_files s of
        None \<Rightarrow> None
      | Some (Inl e, s') \<Rightarrow> Some (Inl e, s')
      | Some (Inr vs, s') \<Rightarrow> Some (Inr (acc @ vs), s'))"
proof (induction pdf_files arbitrary: acc s)
  case Nil
  show ?case by simp
next
  case (Cons f rest)
  show ?case
  proof (cases "call (target @ f) (logger_info ''................'' s)")
    case None
    then show ?thesis by (simp add: file_step_def)
  next
    case (Some out)
    obtain r s1 where out: "out = (r, s1)" by (cases out)
    show ?thesis
    proof (cases r)
      case (Inl e)
      with Some out show ?thesis by (simp add: file_step_def)
    next
      case (Inr v)
      with Some out Cons.IH [of "acc @ [v]" s1] show ?thesis
        by (simp add: file_step_def split: option.splits sum.splits prod.splits)
    qed
  qed
qed

lemma subfolders_loop_in_order:
  "subfolders_loop call subfolders (Some acc) s =
     (case in_order (subfolder_step call) subfolders s of
        None \<Rightarrow> None
      | Some (Inl e, s') \<Rightarrow> Some (Inl e, s')
      | Some (Inr vss, s') \<Rightarrow> Some (Inr (Some (acc @ concat vss)), s'))"
proof (induction subfolders arbitrary: acc s)
  case Nil
  show ?case by simp
next
  case (Cons d rest)
  show ?case
  proof (cases "subfolder_step call d s")
    case None
    then show ?thesis
      by (auto simp: subfolder_step_def split: option.splits sum.splits prod.splits)
  next
    case (Some out)
    obtain r s1 where out: "out = (r, s1)" by (cases out)
    show ?thesis
    proof (cases r)
      case (Inl e)
      with Some out show ?thesis
        by (auto simp: subfolder_step_def split: option.splits sum.splits prod.splits)
    next
      case (Inr items)
      with Some out have "subfolders_loop call (d # rest) (Some acc) s =
          subfolders_loop call rest (Some (acc @ items)) s1"
        by (auto simp: subfolder_step_def split: option.splits sum.splits prod.splits)
      with Some out Inr Cons.IH [of "acc @ items" s1] show ?thesis
        by (simp split: option.splits sum.splits prod.splits)
    qed
  qed
qed

lemma in_order_length:
  "in_order step xs s = Some (Inr vs, s') \<Longrightarrow> length vs = length xs"
proof (induction xs arbitrary: vs s)
  case Nil
  then show ?case by simp
next
  case (Cons x xs)
  then show ?case
    by (auto split: option.splits sum.splits prod.splits)
qed



lemma rename_dir_phases:
  "rename_dir call w target s =
     (case walk_files call (dir_target w target) (pdf_files_of w (fs s) target)
             (logger_info (''Looking for pdf files and subfolders in the folder '' @ target @ ''...'') s) of
        None \<Rightarrow> None
      | Some (Inl e, s2) \<Rightarrow> Some (Inl e, s2)
      | Some (Inr files_processed, s2) \<Rightarrow>
          (case walk_subfolders call w (subfolders_of w (fs s) target) files_processed s2 of
             None \<Rightarrow> None
           | Some (Inl e, s3) \<Rightarrow> Some (Inl e, s3)
           | Some (Inr fp, s3) \<Rightarrow> Some (return_files_processed fp, s3)))"
  unfolding rename_dir_def Let_def dir_target_def pdf_files_of_def subfolders_of_def fs_logger
  by (rule refl)

lemma walk_files_in_order:
  assumes "pdf_files \<noteq> []"
  shows "walk_files call target pdf_files s =
     (case in_order (file_step call target) pdf_files
             (logger_info (''Found '' @ str_nat (length pdf_files) @ '' pdf file(s).'') s) of
        None \<Rightarrow> None
      | Some (Inl e, s') \<Rightarrow> Some (Inl e, s')
      | Some (Inr rs, s') \<Rightarrow> Some (Inr (Some rs), logger_info ''................'' s'))"
  using assms
  by (simp add: walk_files_def Let_def files_loop_in_order split: option.splits sum.splits prod.splits)

lemma walk_subfolders_explored:
  assumes "subfolders \<noteq> []" and "config_check_subfolders w"
  shows "walk_subfolders call w subfolders (Some acc) s =
     (case in_order (subfolder_step call) subfolders
             (logger_info ''Exploring subfolders...''
               (logger_info (''Found '' @ str_nat (length subfolders) @ '' subfolder(s)'') s)) of
        None \<Rightarrow> None
      | Some (Inl e, s') \<Rightarrow> Some (Inl e, s')
      | Some (Inr rss, s') \<Rightarrow> Some (Inr (Some (acc @ concat rss)), logger_info ''................'' s'))"
  using assms
  by (simp add: walk_subfolders_def Let_def subfolders_loop_in_order
           split: option.splits sum.splits prod.splits)

lemma walk_subfolders_skipped:
  assumes "\<not> (subfolders \<noteq> [] \<and> config_check_subfolders w)"
  shows "\<exists>s'. walk_subfolders call w subfolders fp s = Some (Inr fp, s')"
  using assms by (auto simp: walk_subfolders_def Let_def)

lemma rename_dir_order:
  assumes pdf: "pdf_files_of w (fs s) target \<noteq> []"
    and ret: "rename_dir call w target s = Some (Inr v, s')"
  shows "\<exists>rs sA.
           in_order (file_step call (dir_target w target)) (pdf_files_of w (fs s) target)
             (files_start target (length (pdf_files_of w (fs s) target)) s) = Some (Inr rs, sA)
         \<and> length rs = length (pdf_files_of w (fs s) target)
         \<and> (if subfolders_of w (fs s) target \<noteq> [] \<and> config_check_subfolders w
            then \<exists>rss sB.
                   in_order (subfolder_step call) (subfolders_of w (fs s) target)
                     (subfolders_start (length (subfolders_of w (fs s) target)) sA) = Some (Inr rss, sB)
                 \<and> length rss = length (subfolders_of w (fs s) target)
                 \<and> v = PList (rs @ concat rss)
            else v = PList rs)"
proof -
  let ?files = "pdf_files_of w (fs s) target" and ?subs = "subfolders_of w (fs s) target"
  let ?run_files = "in_order (file_step call (dir_target w target)) ?files
                      (files_start target (length ?files) s)"
  from ret have phases: "(case walk_files call (dir_target w target) ?files
             (logger_info (''Looking for pdf files and subfolders in the folder '' @ target @ ''...'') s) of
        None \<Rightarrow> None
      | Some (Inl e, s2) \<Rightarrow> Some (Inl e, s2)
      | Some (Inr files_processed, s2) \<Rightarrow>
          (case walk_subfolders call w ?subs files_processed s2 of
             None \<Rightarrow> None
           | Some (Inl e, s3) \<Rightarrow> Some (Inl e, s3)
           | Some (Inr fp, s3) \<Rightarrow> Some (return_files_processed fp, s3))) = Some (Inr v, s')"
    by (simp only: rename_dir_phases)
  have wf: "walk_files call (dir_target w target) ?files
             (logger_info (''Looking for pdf files and subfolders in the folder '' @ target @ ''...'') s) =
     (case ?run_files of
        None \<Rightarrow> None
      | Some (Inl e, s') \<Rightarrow> Some (Inl e, s')
      | Some (Inr rs, s') \<Rightarrow> Some (Inr (Some rs), logger_info ''................'' s'))"
    using walk_files_in_order [OF pdf] by (simp add: files_start_def)
  from phases obtain rs sA where files: "?run_files = Some (Inr rs, sA)"
    unfolding wf by (auto split: option.splits sum.splits prod.splits)
  with phases have subs: "(case walk_subfolders call w ?subs (Some rs) (logger_info ''................'' sA) of
             None \<Rightarrow> None
           | Some (Inl e, s3) \<Rightarrow> Some (Inl e, s3)
           | Some (Inr fp, s3) \<Rightarrow> Some (return_files_processed fp, s3)) = Some (Inr v, s')"
    unfolding wf by simp
  have len: "length rs = length ?files"
    using files by (rule in_order_length)
  show ?thesis
  proof (cases "?subs \<noteq> [] \<and> config_check_subfolders w")
    case True
    then have ws: "walk_subfolders call w ?subs (Some rs) (logger_info ''................'' sA) =
       (case in_order (subfolder_step call) ?subs (subfolders_start (length ?subs) sA) of
          None \<Rightarrow> None
        | Some (Inl e, s') \<Rightarrow> Some (Inl e, s')
        | Some (Inr rss, s') \<Rightarrow> Some (Inr (Some (rs @ concat rss)), logger_info ''................'' s'))"
      using walk_subfolders_explored [of ?subs w call rs "logger_info ''................'' sA"]
      by (simp add: subfolders_start_def)
    from subs obtain rss sB where
      run: "in_order (subfolder_step call) ?subs (subfolders_start (length ?subs) sA) = Some (Inr rss, sB)"
      and v: "v = PList (rs @ concat rss)"
      unfolding ws by (auto split: option.splits sum.splits prod.splits)
    from run have "length rss = length ?subs"
      by (rule in_order_length)
    with True files len run v show ?thesis by auto
  next
    case False
    from walk_subfolders_skipped [OF False, of call "Some rs" "logger_info ''................'' sA"]
    obtain s3 where "walk_subfolders call w ?subs (Some rs) (logger_info ''................'' sA) =
        Some (Inr (Some rs), s3)"
      by (elim exE)
    with subs have "v = PList rs" by simp
    with False files len show ?thesis by auto
  qed
qed


lemma rename_single_not_list:
  assumes "rename_single w target format tags s = Some (Inr v, s')"
  shows "\<not> is_list v"
  using assms
  by (auto simp: rename_single_def Let_def split: if_splits sum.splits option.splits prod.splits)

lemma rename_on_file_not_list:
  assumes "\<not> os_path_isdir w (fs s) target"
    and "rename n w target format tags s = Some (Inr v, s')"
  shows "\<not> is_list v"
proof (cases n)
  case 0
  with assms(2) show ?thesis by simp
next
  case (Suc m)
  show ?thesis
  proof (cases "effective_tags w (effective_format w format) tags")
    case None
    with assms(2) Suc show ?thesis by (auto simp: Let_def)
  next
    case (Some tgs)
    show ?thesis
    proof (cases "os_path_exists w (fs s) target")
      case False
      with assms(2) Suc Some show ?thesis by (auto simp: Let_def)
    next
      case True
      with assms Suc Some
      have "rename_single w target (effective_format w format) tgs s = Some (Inr v, s')"
        by (simp add: Let_def)
      then show ?thesis by (rule rename_single_not_list)
    qed
  qed
qed

lemma endswith_lower_append:
  assumes "endswith (lower f) suf"
  shows "endswith (lower (target @ f)) suf"
proof -
  from assms have len: "length suf \<le> length f"
    and suf: "drop (length f - length suf) (lower f) = suf"
    by (simp_all add: endswith_def lower_def)
  have "length (lower (target @ f)) - length suf = length target + (length f - length suf)"
    using len by (simp add: lower_def)
  then have "drop (length (lower (target @ f)) - length suf) (lower (target @ f)) =
             drop (length f - length suf) (lower f)"
    by (simp add: lower_def)
  with len suf show ?thesis
    by (simp add: endswith_def lower_def)
qed

lemma in_order_list_all:
  assumes "in_order step xs s = Some (Inr vs, s')"
    and "\<And>x s v s'. x \<in> set xs \<Longrightarrow> step x s = Some (Inr v, s') \<Longrightarrow> Q v"
  shows "list_all Q vs"
  using assms
proof (induction xs arbitrary: vs s)
  case Nil
  then show ?case by simp
next
  case (Cons x xs)
  from Cons.prems(1) obtain v s1 vs' where
    step: "step x s = Some (Inr v, s1)" and rest: "in_order step xs s1 = Some (Inr vs', s')"
    and vs: "vs = v # vs'"
    by (auto split: option.splits sum.splits prod.splits)
  from step have "Q v"
    by (rule Cons.prems(2) [of x, simplified])
  moreover from rest have "list_all Q vs'"
    by (rule Cons.IH) (auto intro: Cons.prems(2))
  ultimately show ?case using vs by simp
qed

lemma py_iter_flat:
  assumes "py_iter v = Inr items"
    and "\<And>xs. v = PList xs \<Longrightarrow> flat_list xs"
  shows "flat_list items"
  using assms by (cases v) (auto simp: flat_list_def list_all_iff)

lemma subfolders_loop_unbound:
  assumes "subfolders \<noteq> []"
  shows "subfolders_loop call subfolders None s \<noteq> Some (Inr fp, s')"
  using assms
  by (cases subfolders) (auto split: option.splits sum.splits prod.splits)

lemma walk_subfolders_unbound:
  assumes "walk_subfolders call w subfolders None s = Some (Inr fp, s')"
  shows "fp = None"
proof (cases "subfolders \<noteq> [] \<and> config_check_subfolders w")
  case True
  with assms subfolders_loop_unbound [of subfolders call] show ?thesis
    by (auto simp: walk_subfolders_def Let_def split: option.splits sum.splits prod.splits)
next
  case False
  with assms show ?thesis
    by (auto simp: walk_subfolders_def Let_def split: if_splits)
qed

lemma rename_dir_without_pdf:
  assumes "pdf_files_of w (fs s) target = []"
  shows "rename_dir call w target s \<noteq> Some (Inr v, s')"
proof
  assume ret: "rename_dir call w target s = Some (Inr v, s')"
  let ?s1 = "logger_info (''Looking for pdf files and subfolders in the folder '' @ target @ ''...'') s"
  have wf: "walk_files call (dir_target w target) (pdf_files_of w (fs s) target) ?s1 =
          Some (Inr None, logger_error ''No pdf file found in this folder.'' ?s1)"
    using assms by (simp add: walk_files_def)
  from ret obtain fp s3 where
    ws: "walk_subfolders call w (subfolders_of w (fs s) target) None
           (logger_error ''No pdf file found in this folder.'' ?s1) = Some (Inr fp, s3)"
    and v: "return_files_processed fp = Inr v"
    unfolding rename_dir_phases wf by (auto split: option.splits sum.splits prod.splits)
  from ws have "fp = None" by (rule walk_subfolders_unbound)
  with v show False by simp
qed


lemma rename_flat:
  assumes H: "no_pdf_named_folder w"
  shows "rename n w target format tags s = Some (Inr (PList xs), s') \<Longrightarrow> flat_list xs"
proof (induction n arbitrary: target format tags s xs s')
  case 0
  then show ?case by simp
next
  case (Suc n)
  let ?fmt = "effective_format w format"
  from Suc.prems obtain tgs where tgs: "effective_tags w ?fmt tags = Some tgs"
    by (cases "effective_tags w ?fmt tags") (auto simp: Let_def)
  define call where "call = (\<lambda>p. rename n w p (Some ?fmt) (Some tgs))"
  have ex: "os_path_exists w (fs s) target"
    using Suc.prems tgs by (auto simp: Let_def split: if_splits)
  have dir: "os_path_isdir w (fs s) target"
  proof (rule ccontr)
    assume "\<not> os_path_isdir w (fs s) target"
    from rename_on_file_not_list [OF this Suc.prems] show False by simp
  qed
  from Suc.prems tgs ex dir
  have ret: "rename_dir call w target s = Some (Inr (PList xs), s')"
    by (simp add: Let_def call_def)
  let ?files = "pdf_files_of w (fs s) target" and ?subs = "subfolders_of w (fs s) target"
  have pdf: "?files \<noteq> []"
    using rename_dir_without_pdf [of w s target call "PList xs" s'] ret by blast
  from rename_dir_order [OF pdf ret] obtain rs sA where
    files: "in_order (file_step call (dir_target w target)) ?files
              (files_start target (length ?files) s) = Some (Inr rs, sA)"
    and shape: "if ?subs \<noteq> [] \<and> config_check_subfolders w
            then \<exists>rss sB.
                   in_order (subfolder_step call) ?subs (subfolders_start (length ?subs) sA) = Some (Inr rss, sB)
                 \<and> length rss = length ?subs
                 \<and> PList xs = PList (rs @ concat rss)
            else PList xs = PList rs"
    by (elim exE conjE)
  have flat_rs: "flat_list rs"
    unfolding flat_list_def
  proof (rule in_order_list_all [OF files])
    fix f s0 v s1
    assume f: "f \<in> set ?files" and step: "file_step call (dir_target w target) f s0 = Some (Inr v, s1)"
    from f have "endswith (lower f) ''.pdf''"
      by (simp add: pdf_files_of_def)
    then have "endswith (lower (dir_target w target @ f)) ''.pdf''"
      by (rule endswith_lower_append)
    with H have "\<not> os_path_isdir w (fs (logger_info ''................'' s0)) (dir_target w target @ f)"
      by (auto simp: no_pdf_named_folder_def)
    moreover from step
    have "rename n w (dir_target w target @ f) (Some ?fmt) (Some tgs) (logger_info ''................'' s0)
            = Some (Inr v, s1)"
      by (simp add: file_step_def call_def)
    ultimately show "\<not> is_list v"
      by (rule rename_on_file_not_list)
  qed
  show ?case
  proof (cases "?subs \<noteq> [] \<and> config_check_subfolders w")
    case False
    with shape flat_rs show ?thesis by simp
  next
    case True
    with shape obtain rss sB where
      run: "in_order (subfolder_step call) ?subs (subfolders_start (length ?subs) sA) = Some (Inr rss, sB)"
      and xs: "xs = rs @ concat rss"
      by auto
    have "list_all flat_list rss"
    proof (rule in_order_list_all [OF run])
      fix d s0 items s1
      assume "subfolder_step call d s0 = Some (Inr items, s1)"
      then obtain result where res: "rename n w d (Some ?fmt) (Some tgs) s0 = Some (Inr result, s1)"
        and it: "py_iter result = Inr items"
        by (auto simp: subfolder_step_def call_def split: option.splits sum.splits prod.splits)
      from it show "flat_list items"
      proof (rule py_iter_flat)
        fix ys assume "result = PList ys"
        with res show "flat_list ys" by (auto intro: Suc.IH)
      qed
    qed
    then have "flat_list (concat rss)"
      by (auto simp: flat_list_def list_all_iff)
    with flat_rs xs show ?thesis
      by (simp add: flat_list_def)
  qed
qed




lemma strip_sep_cases: "strip_sep p = p \<or> p = strip_sep p @ ''/''"
  by (cases p rule: rev_cases) (auto simp: strip_sep_def endswith_def)

lemma map_option_fst_SomeD: "map_option fst out = Some a \<Longrightarrow> \<exists>b. out = Some (a, b)"
  by (cases out) auto


end
